theory Spec2Isabelle
  imports Main "HOL-Library.List_Lexorder" "HOL-Library.Multiset"
begin

section \<open>The hotel booking server (server/server.js)\<close>

text \<open>
  The server keeps two collections, rooms and bookings, and answers four requests:
  the two listings, \<^verbatim>\<open>POST /api/book\<close> and \<^verbatim>\<open>POST /api/cancel\<close>. The handlers are
  embedded as functions from the store and the request body to the reply and the new
  store. What the handlers take from JavaScript and from Mongoose (truthiness,
  \<^verbatim>\<open>trim\<close>, \<^verbatim>\<open>parseInt\<close>, \<^verbatim>\<open>Number.prototype.toString\<close>, the rounding of doubles, the
  casts of the schema types, the \<^verbatim>\<open>required\<close> validator) is written out below.

  The values. A field of a request body is a JSON scalar or absent; arrays and objects as
  field values are not modelled. A string is the list of its Unicode code points. A number
  in a request body is a decimal of at most 15 significant digits with a decimal exponent
  of magnitude at most 290: every such decimal denotes one double, and it is the shortest
  decimal that does, so it is what \<^verbatim>\<open>toString\<close> prints for that double. The numbers that
  \<^verbatim>\<open>parseInt\<close> and the multiplication produce are integer-valued doubles, infinite or NaN,
  computed with the rounding of IEEE 754. Prices are integers, as the seeded ones are.
  Database operations do not fail for reasons outside the data (no lost connection), and
  the stored room documents satisfy their schema, so that saving a room that was read does
  not fail.
\<close>

subsection \<open>Strings\<close>

type_synonym jsstring = "nat list"

text \<open>The string that a literal of ASCII characters writes.\<close>

definition str :: "string \<Rightarrow> jsstring" where
  "str s = map of_char s"

subsection \<open>Numbers\<close>

text \<open>A number of a request body: the decimal \<open>m * 10 ^ e\<close>.\<close>

typedef decimal = "{(m :: int, e :: int). \<bar>m\<bar> < 10 ^ 15 \<and> \<bar>e\<bar> \<le> 290}"
  by (rule exI [of _ "(0, 0)"]) simp

definition mantissa :: "decimal \<Rightarrow> int" where
  "mantissa d = fst (Rep_decimal d)"

definition exponent :: "decimal \<Rightarrow> int" where
  "exponent d = snd (Rep_decimal d)"

definition dec :: "int \<Rightarrow> int \<Rightarrow> decimal" where
  "dec m e = Abs_decimal (m, e)"

text \<open>
  A number as \<^verbatim>\<open>parseInt\<close> and the multiplication return it: NaN, an infinity, or a
  double whose value is the integer given.
\<close>

datatype jsnum = NaN | Infinity | NegInfinity | Num int

text \<open>
  The double nearest to a natural number (ties to the even mantissa of 53 bits), as a
  natural number; the caller checks for overflow.
\<close>

function bitLength :: "nat \<Rightarrow> nat" where
  "bitLength n = (if n = 0 then 0 else Suc (bitLength (n div 2)))"
  by pat_completeness auto
termination
  by (relation "measure (\<lambda>n. n)") auto

declare bitLength.simps [simp del]

definition roundNat :: "nat \<Rightarrow> nat" where
  "roundNat n =
     (if n < 2 ^ 53 then n
      else let sh = bitLength n - 53; q = n div 2 ^ sh; r = n mod 2 ^ sh
           in if 2 ^ sh < 2 * r \<or> (2 * r = 2 ^ sh \<and> odd q) then (q + 1) * 2 ^ sh
              else q * 2 ^ sh)"

definition roundDouble :: "int \<Rightarrow> jsnum" where
  "roundDouble i =
     (let a = roundNat (nat \<bar>i\<bar>)
      in if 2 ^ 1024 \<le> a then (if i < 0 then NegInfinity else Infinity)
         else Num (if i < 0 then - int a else int a))"

subsection \<open>JavaScript values\<close>

datatype jsval = JUndefined | JNull | JBool bool | JNum decimal | JStr jsstring

text \<open>A number of a request body that is an integer.\<close>

definition num :: "int \<Rightarrow> jsval" where
  "num i = JNum (dec i 0)"

datatype js_error = TypeError | CastError | ValidationError | DuplicateKey

text \<open>The operand of \<^verbatim>\<open>!\<close>: what JavaScript takes as true.\<close>

fun truthy :: "jsval \<Rightarrow> bool" where
  "truthy JUndefined = False"
| "truthy JNull = False"
| "truthy (JBool b) = b"
| "truthy (JNum d) = (mantissa d \<noteq> 0)"
| "truthy (JStr s) = (s \<noteq> [])"

text \<open>
  The code points that \<^verbatim>\<open>trim\<close> and \<^verbatim>\<open>parseInt\<close> skip: WhiteSpace (tab, vertical tab,
  form feed, the byte order mark and the space separators of Unicode) and LineTerminator
  (line feed, carriage return, line and paragraph separator).
\<close>

definition isWhite :: "nat \<Rightarrow> bool" where
  "isWhite c =
     (c \<in> set [0x09, 0x0A, 0x0B, 0x0C, 0x0D, 0x20, 0xA0, 0x1680, 0x2000, 0x2001, 0x2002,
        0x2003, 0x2004, 0x2005, 0x2006, 0x2007, 0x2008, 0x2009, 0x200A, 0x2028, 0x2029,
        0x202F, 0x205F, 0x3000, 0xFEFF])"

text \<open>\<^verbatim>\<open>String.prototype.trim\<close>.\<close>

definition trim :: "jsstring \<Rightarrow> jsstring" where
  "trim s = rev (dropWhile isWhite (rev (dropWhile isWhite s)))"

text \<open>\<^verbatim>\<open>v.trim()\<close>: only a string has the method.\<close>

fun call_trim :: "jsval \<Rightarrow> js_error + jsstring" where
  "call_trim (JStr s) = Inr (trim s)"
| "call_trim v = Inl TypeError"

definition digitChar :: "nat \<Rightarrow> nat" where
  "digitChar d = 48 + d"

function showNat :: "nat \<Rightarrow> jsstring" where
  "showNat n = (if n < 10 then [digitChar n] else showNat (n div 10) @ [digitChar (n mod 10)])"
  by pat_completeness auto
termination
  by (relation "measure (\<lambda>n. n)") auto

declare showNat.simps [simp del]

definition showInt :: "int \<Rightarrow> jsstring" where
  "showInt i = (if i < 0 then str ''-'' @ showNat (nat (- i)) else showNat (nat i))"

text \<open>The decimal without the zeros that end its mantissa.\<close>

function stripZeros :: "nat \<Rightarrow> int \<Rightarrow> nat \<times> int" where
  "stripZeros s e =
     (if s \<noteq> 0 \<and> s mod 10 = 0 then stripZeros (s div 10) (e + 1) else (s, e))"
  by pat_completeness auto
termination
  by (relation "measure (\<lambda>(s, e). s)") auto

declare stripZeros.simps [simp del]

text \<open>
  \<^verbatim>\<open>Number.prototype.toString\<close> of a finite number: with \<open>k\<close> digits \<open>ds\<close> and the decimal
  point after the \<open>n\<close>-th of them, the digits are written out when \<open>-6 < n \<le> 21\<close> and in
  exponent notation otherwise.
\<close>

definition numberToString :: "decimal \<Rightarrow> jsstring" where
  "numberToString d =
     (if mantissa d = 0 then str ''0''
      else
        (let (s, e) = stripZeros (nat \<bar>mantissa d\<bar>) (exponent d);
             ds = showNat s; k = int (length ds); n = k + e
         in (if mantissa d < 0 then str ''-'' else []) @
            (if k \<le> n \<and> n \<le> 21 then ds @ replicate (nat (n - k)) 48
             else if 0 < n \<and> n \<le> 21 then take (nat n) ds @ str ''.'' @ drop (nat n) ds
             else if - 6 < n \<and> n \<le> 0 then str ''0.'' @ replicate (nat (- n)) 48 @ ds
             else (if k = 1 then ds else take 1 ds @ str ''.'' @ drop 1 ds) @ str ''e'' @
                  (if n - 1 < 0 then str ''-'' else str ''+'') @ showNat (nat \<bar>n - 1\<bar>))))"

text \<open>The abstract operation ToString.\<close>

fun toString :: "jsval \<Rightarrow> jsstring" where
  "toString JUndefined = str ''undefined''"
| "toString JNull = str ''null''"
| "toString (JBool b) = (if b then str ''true'' else str ''false'')"
| "toString (JNum d) = numberToString d"
| "toString (JStr s) = s"

text \<open>The value of a code point as a digit, up to radix 36.\<close>

definition digitVal :: "nat \<Rightarrow> nat option" where
  "digitVal c =
     (if 48 \<le> c \<and> c \<le> 57 then Some (c - 48)
      else if 97 \<le> c \<and> c \<le> 122 then Some (c - 87)
      else if 65 \<le> c \<and> c \<le> 90 then Some (c - 55)
      else None)"

definition isDigit :: "nat \<Rightarrow> nat \<Rightarrow> bool" where
  "isDigit R c = (case digitVal c of None \<Rightarrow> False | Some v \<Rightarrow> v < R)"

definition digitsValue :: "nat \<Rightarrow> jsstring \<Rightarrow> nat" where
  "digitsValue R Z = foldl (\<lambda>a c. a * R + the (digitVal c)) 0 Z"

text \<open>
  \<^verbatim>\<open>parseInt(string)\<close> with no radix: leading white space is skipped, a sign is read, a
  prefix \<^verbatim>\<open>0x\<close> or \<^verbatim>\<open>0X\<close> selects radix 16, and the longest run of digits is the value,
  rounded to a double; no digit gives NaN. (Beyond 20 significant digits the standard
  leaves the rounding to the implementation; this is the correctly rounded value, which is
  what V8 returns.)
\<close>

definition parseIntString :: "jsstring \<Rightarrow> jsnum" where
  "parseIntString inputString =
     (let S = dropWhile isWhite inputString;
          sign = (if take 1 S = str ''-'' then - 1 else (1::int));
          S1 = (if take 1 S = str ''-'' \<or> take 1 S = str ''+'' then drop 1 S else S);
          hex = (take 2 S1 = str ''0x'' \<or> take 2 S1 = str ''0X'');
          R = (if hex then 16 else 10);
          S2 = (if hex then drop 2 S1 else S1);
          Z = takeWhile (isDigit R) S2
      in if Z = [] then NaN else roundDouble (sign * int (digitsValue R Z)))"

definition parseInt :: "jsval \<Rightarrow> jsnum" where
  "parseInt v = parseIntString (toString v)"

text \<open>
  The integer truncation of a number, as arithmetic defines it and not as the code computes
  it: the whole part of \<open>m * 10 ^ e\<close>, the fraction cut off towards zero. It is what
  \<^verbatim>\<open>parseInt\<close> above is compared with. \<open>fixedNotation\<close> is the range in which
  \<^verbatim>\<open>toString\<close> writes the digits of a number out: a magnitude of at least 1e-6 and less
  than 1e21.
\<close>

definition truncDecimal :: "decimal \<Rightarrow> int" where
  "truncDecimal d =
     (if 0 \<le> exponent d then mantissa d * 10 ^ nat (exponent d)
      else sgn (mantissa d) * (\<bar>mantissa d\<bar> div 10 ^ nat (- exponent d)))"

definition fixedNotation :: "decimal \<Rightarrow> bool" where
  "fixedNotation d =
     (10 ^ nat (- exponent d) \<le> \<bar>mantissa d\<bar> * 10 ^ 6 \<and>
      \<bar>mantissa d\<bar> * 10 ^ nat (exponent d) < 10 ^ 21)"

text \<open>\<^verbatim>\<open>room.price * parseInt(days)\<close>: the price is a stored number.\<close>

fun mulNum :: "int \<Rightarrow> jsnum \<Rightarrow> jsnum" where
  "mulNum p NaN = NaN"
| "mulNum p Infinity = (if p = 0 then NaN else if p < 0 then NegInfinity else Infinity)"
| "mulNum p NegInfinity = (if p = 0 then NaN else if p < 0 then Infinity else NegInfinity)"
| "mulNum p (Num n) = roundDouble (p * n)"

subsection \<open>Mongoose: casts and validators of the schema types\<close>

text \<open>
  The cast to \<^verbatim>\<open>String\<close>: null and undefined stay as they are (no string), every other
  scalar goes through its \<^verbatim>\<open>toString\<close>.
\<close>

fun castString :: "jsval \<Rightarrow> jsstring option" where
  "castString JUndefined = None"
| "castString JNull = None"
| "castString v = Some (toString v)"

text \<open>The cast to \<^verbatim>\<open>Number\<close> refuses NaN.\<close>

fun castNumber :: "jsnum \<Rightarrow> js_error + jsnum" where
  "castNumber NaN = Inl CastError"
| "castNumber x = Inr x"

text \<open>
  The cast to \<^verbatim>\<open>ObjectId\<close>: the value's \<^verbatim>\<open>toString\<close> must be 24 hexadecimal digits;
  an identifier is the number they write (so the case of the digits does not matter).
  This is the constructor of bson 5 and later; earlier versions also took any string of
  12 bytes.
\<close>

definition castObjectId :: "jsval \<Rightarrow> js_error + nat" where
  "castObjectId v =
     (let t = toString v in
      if length t = 24 \<and> list_all (isDigit 16) t then Inr (digitsValue 16 t)
      else Inl CastError)"

text \<open>The \<^verbatim>\<open>required\<close> validator of a \<^verbatim>\<open>String\<close> path refuses the empty string.\<close>

definition checkRequired :: "jsstring \<Rightarrow> js_error + jsstring" where
  "checkRequired s = (if s = [] then Inl ValidationError else Inr s)"

fun updateFirst :: "('a \<Rightarrow> bool) \<Rightarrow> ('a \<Rightarrow> 'a) \<Rightarrow> 'a list \<Rightarrow> 'a list" where
  "updateFirst P f [] = []"
| "updateFirst P f (x # xs) = (if P x then f x # xs else x # updateFirst P f xs)"

fun deleteFirst :: "('a \<Rightarrow> bool) \<Rightarrow> 'a list \<Rightarrow> 'a list" where
  "deleteFirst P [] = []"
| "deleteFirst P (x # xs) = (if P x then xs else x # deleteFirst P xs)"

subsection \<open>Schemas and the store\<close>

record room =
  roomNumber :: jsstring
  roomType :: jsstring
  price :: int
  available :: bool

text \<open>
  A booking document; \<open>b_id\<close> is its \<^verbatim>\<open>_id\<close>, \<open>b_roomNumber\<close> its \<^verbatim>\<open>roomNumber\<close> and
  \<open>createdAt\<close> the time stamp that \<^verbatim>\<open>timestamps: true\<close> sets when it is saved.
\<close>

record booking =
  b_id :: nat
  guestName :: jsstring
  guestPhone :: jsstring
  b_roomNumber :: jsstring
  days :: jsnum
  totalAmount :: jsnum
  createdAt :: nat

record store =
  rooms :: "room list"
  bookings :: "booking list"

text \<open>A request body: a JSON object; a key it does not have reads as undefined.\<close>

type_synonym body = "string \<rightharpoonup> jsval"

definition bodyField :: "body \<Rightarrow> string \<Rightarrow> jsval" where
  "bodyField b k = (case b k of None \<Rightarrow> JUndefined | Some v \<Rightarrow> v)"

datatype reply = Reply (status: nat) (message: string) (payload: "booking option")

text \<open>The filter \<^verbatim>\<open>{ roomNumber }\<close>, cast by the room schema.\<close>

definition roomFilter :: "jsval \<Rightarrow> room \<Rightarrow> bool" where
  "roomFilter rn r = (castString rn = Some (roomNumber r))"

subsection \<open>Seed data\<close>

definition sampleRooms :: "room list" where
  "sampleRooms =
     [\<lparr>roomNumber = str ''101'', roomType = str ''Single'', price = 1000, available = True\<rparr>,
      \<lparr>roomNumber = str ''102'', roomType = str ''Double'', price = 1500, available = True\<rparr>,
      \<lparr>roomNumber = str ''103'', roomType = str ''Deluxe'', price = 2000, available = True\<rparr>]"

definition initializeData :: "store \<Rightarrow> store" where
  "initializeData s =
     (if length (rooms s) = 0 then s\<lparr>rooms := rooms s @ sampleRooms\<rparr> else s)"

definition emptyStore :: store where
  "emptyStore = \<lparr>rooms = [], bookings = []\<rparr>"

definition seeded :: store where
  "seeded = initializeData emptyStore"

subsection \<open>The listings\<close>

text \<open>\<^verbatim>\<open>Room.find().sort({ roomNumber: 1 })\<close>: ascending; MongoDB compares the
  UTF-8 bytes of two strings, which orders them as their code points do.\<close>

definition getRooms :: "store \<Rightarrow> room list" where
  "getRooms s = sort_key roomNumber (rooms s)"

text \<open>\<^verbatim>\<open>Booking.find().sort({ createdAt: -1 })\<close>: descending.\<close>

definition getBookings :: "store \<Rightarrow> booking list" where
  "getBookings s = rev (sort_key createdAt (bookings s))"

subsection \<open>POST /api/book\<close>

text \<open>
  \<^verbatim>\<open>new Booking({...})\<close> followed by the validation that \<^verbatim>\<open>save\<close> runs: the casts of the
  paths and their \<^verbatim>\<open>required\<close> validators. \<open>oid\<close> is the identifier the driver
  generates for the document and \<open>now\<close> the clock.
\<close>

definition newBooking :: "nat \<Rightarrow> nat \<Rightarrow> jsstring \<Rightarrow> jsstring \<Rightarrow> jsval \<Rightarrow> jsnum \<Rightarrow> jsnum \<Rightarrow> js_error + booking" where
  "newBooking oid now gn gp rn d amount =
     (case checkRequired gn of Inl e \<Rightarrow> Inl e | Inr n \<Rightarrow>
     (case checkRequired gp of Inl e \<Rightarrow> Inl e | Inr p \<Rightarrow>
     (case castString rn of None \<Rightarrow> Inl ValidationError | Some r \<Rightarrow>
     (case checkRequired r of Inl e \<Rightarrow> Inl e | Inr r' \<Rightarrow>
     (case castNumber d of Inl e \<Rightarrow> Inl e | Inr dn \<Rightarrow>
     (case castNumber amount of Inl e \<Rightarrow> Inl e | Inr tn \<Rightarrow>
        Inr \<lparr>b_id = oid, guestName = n, guestPhone = p, b_roomNumber = r', days = dn,
             totalAmount = tn, createdAt = now\<rparr>))))))"

text \<open>
  The body of the handler's \<^verbatim>\<open>try\<close>. An exception is \<open>Inl\<close>; every one of them is
  thrown before the store is written. The insert refuses an \<^verbatim>\<open>_id\<close> that is taken.
\<close>

definition book_try :: "store \<Rightarrow> nat \<Rightarrow> nat \<Rightarrow> body \<Rightarrow> js_error + (reply \<times> store)" where
  "book_try s oid now b =
     (let gn = bodyField b ''guestName''; gp = bodyField b ''guestPhone'';
          rn = bodyField b ''roomNumber''; d = bodyField b ''days''
      in if \<not> truthy gn \<or> \<not> truthy gp \<or> \<not> truthy rn \<or> \<not> truthy d
         then Inr (Reply 400 ''All fields are required'' None, s)
         else (case find (roomFilter rn) (rooms s) of
           None \<Rightarrow> Inr (Reply 404 ''Room not found'' None, s)
         | Some r \<Rightarrow>
             if \<not> available r then Inr (Reply 400 ''Room is not available'' None, s)
             else
               (let amount = mulNum (price r) (parseInt d) in
               (case call_trim gn of Inl e \<Rightarrow> Inl e | Inr n \<Rightarrow>
               (case call_trim gp of Inl e \<Rightarrow> Inl e | Inr p \<Rightarrow>
               (case newBooking oid now n p rn (parseInt d) amount of Inl e \<Rightarrow> Inl e | Inr nb \<Rightarrow>
                 if oid \<in> set (map b_id (bookings s)) then Inl DuplicateKey
                 else Inr (Reply 201 ''Booking Successful!'' (Some nb),
                        s\<lparr>bookings := bookings s @ [nb],
                          rooms := updateFirst (roomFilter rn) (\<lambda>x. x\<lparr>available := False\<rparr>) (rooms s)\<rparr>)))))))"

definition book :: "store \<Rightarrow> nat \<Rightarrow> nat \<Rightarrow> body \<Rightarrow> reply \<times> store" where
  "book s oid now b =
     (case book_try s oid now b of
        Inl e \<Rightarrow> (Reply 500 ''Error creating booking'' None, s)
      | Inr res \<Rightarrow> res)"

subsection \<open>POST /api/cancel\<close>

definition cancel_try :: "store \<Rightarrow> body \<Rightarrow> js_error + (reply \<times> store)" where
  "cancel_try s b =
     (let i = bodyField b ''id''; rn = bodyField b ''roomNumber''
      in if \<not> truthy i \<or> \<not> truthy rn
         then Inr (Reply 400 ''Booking ID and room number are required'' None, s)
         else (case castObjectId i of Inl e \<Rightarrow> Inl e | Inr oid \<Rightarrow>
           (case find (\<lambda>x. b_id x = oid) (bookings s) of
              None \<Rightarrow> Inr (Reply 404 ''Booking not found'' None, s)
            | Some deletedBooking \<Rightarrow>
                Inr (Reply 200 ''Booking Cancelled Successfully!'' None,
                     s\<lparr>bookings := deleteFirst (\<lambda>x. b_id x = oid) (bookings s),
                       rooms := updateFirst (roomFilter rn) (\<lambda>x. x\<lparr>available := True\<rparr>) (rooms s)\<rparr>))))"

definition cancel :: "store \<Rightarrow> body \<Rightarrow> reply \<times> store" where
  "cancel s b =
     (case cancel_try s b of
        Inl e \<Rightarrow> (Reply 500 ''Error cancelling booking'' None, s)
      | Inr res \<Rightarrow> res)"

subsection \<open>Sequences of requests and the occupancy invariant\<close>

text \<open>
  A request to one of the two writing endpoints. A book request carries, besides its
  body, what the environment supplies: the generated identifier and the clock.
\<close>

datatype request = BookReq nat nat body | CancelReq body

fun handle :: "store \<Rightarrow> request \<Rightarrow> store" where
  "handle s (BookReq oid now b) = snd (book s oid now b)"
| "handle s (CancelReq b) = snd (cancel s b)"

definition run :: "store \<Rightarrow> request list \<Rightarrow> store" where
  "run s qs = foldl handle s qs"

text \<open>The number of booking records that reference a room's number.\<close>

definition refs :: "store \<Rightarrow> room \<Rightarrow> nat" where
  "refs s r = length (filter (\<lambda>x. b_roomNumber x = roomNumber r) (bookings s))"

text \<open>The invariant of the data model: unavailable exactly when one booking references the room.\<close>

definition occupancy :: "store \<Rightarrow> bool" where
  "occupancy s = list_all (\<lambda>r. (\<not> available r) = (refs s r = 1)) (rooms s)"

text \<open>
  The form of the invariant that the handlers maintain step by step: room numbers are
  unique, an available room has no booking and an unavailable room has exactly one.
\<close>

definition exclusive :: "store \<Rightarrow> bool" where
  "exclusive s =
     (distinct (map roomNumber (rooms s)) \<and>
      list_all (\<lambda>r. refs s r = (if available r then 0 else 1)) (rooms s))"

text \<open>
  A cancel request is matched when the room number it sends is the one stored in the
  booking that its id names (what the front end sends: \<^verbatim>\<open>cancelBooking(booking._id,
  booking.roomNumber)\<close>). Requests that delete nothing are matched.
\<close>

fun matched :: "store \<Rightarrow> request \<Rightarrow> bool" where
  "matched s (BookReq oid now b) = True"
| "matched s (CancelReq b) =
     (case castObjectId (bodyField b ''id'') of
        Inl e \<Rightarrow> True
      | Inr oid \<Rightarrow>
          (case find (\<lambda>x. b_id x = oid) (bookings s) of
             None \<Rightarrow> True
           | Some bk \<Rightarrow> castString (bodyField b ''roomNumber'') = Some (b_roomNumber bk)))"

fun allMatched :: "store \<Rightarrow> request list \<Rightarrow> bool" where
  "allMatched s [] = True"
| "allMatched s (q # qs) = (matched s q \<and> allMatched (handle s q) qs)"

subsection \<open>Request bodies as the front end builds them\<close>

text \<open>\<^verbatim>\<open>axios.post(.../api/book, { guestName, guestPhone, roomNumber, days })\<close>.\<close>

definition bookBody :: "jsval \<Rightarrow> jsval \<Rightarrow> jsval \<Rightarrow> jsval \<Rightarrow> body" where
  "bookBody gn gp rn d =
     [''guestName'' \<mapsto> gn, ''guestPhone'' \<mapsto> gp, ''roomNumber'' \<mapsto> rn, ''days'' \<mapsto> d]"

text \<open>\<^verbatim>\<open>axios.post(.../api/cancel, { id, roomNumber })\<close>.\<close>

definition cancelBody :: "jsval \<Rightarrow> jsval \<Rightarrow> body" where
  "cancelBody i rn = [''id'' \<mapsto> i, ''roomNumber'' \<mapsto> rn]"

text \<open>A store used in the examples: the seeded rooms after Ann has booked room 101.\<close>

definition annBody :: body where
  "annBody = bookBody (JStr (str ''Ann'')) (JStr (str ''5550101'')) (JStr (str ''101'')) (num 2)"

definition annBooking :: booking where
  "annBooking = \<lparr>b_id = 10, guestName = str ''Ann'', guestPhone = str ''5550101'',
     b_roomNumber = str ''101'', days = Num 2, totalAmount = Num 2000, createdAt = 100\<rparr>"

definition annStore :: store where
  "annStore =
     \<lparr>rooms =
       [\<lparr>roomNumber = str ''101'', roomType = str ''Single'', price = 1000, available = False\<rparr>,
        \<lparr>roomNumber = str ''102'', roomType = str ''Double'', price = 1500, available = True\<rparr>,
        \<lparr>roomNumber = str ''103'', roomType = str ''Deluxe'', price = 2000, available = True\<rparr>],
      bookings = [annBooking]\<rparr>"

definition annId :: jsval where
  "annId = JStr (str ''00000000000000000000000a'')"


section \<open>Properties\<close>

subsection \<open>Numbers and strings\<close>

lemma str_Nil: "str [] = []"
  by (simp add: str_def)

lemma str_eq_iff: "str a = str b \<longleftrightarrow> a = b"
  by (simp add: str_def inj_map_eq_map inj_def)

lemma isWhite_iff:
  "isWhite c \<longleftrightarrow>
     c \<in> {9, 10, 11, 12, 13, 32, 160, 5760, 8192, 8193, 8194, 8195, 8196, 8197, 8198, 8199,
          8200, 8201, 8202, 8232, 8233, 8239, 8287, 12288, 65279}"
  by (simp add: isWhite_def)

lemma digitVal_digitChar: "d < 10 \<Longrightarrow> digitVal (digitChar d) = Some d"
  by (simp add: digitVal_def digitChar_def)

lemma isWhite_digitChar: "d < 10 \<Longrightarrow> \<not> isWhite (digitChar d)"
  by (simp add: isWhite_def digitChar_def)

lemma digitChar_not_sign:
  "d < 10 \<Longrightarrow> [digitChar d] \<noteq> str ''-'' \<and> [digitChar d] \<noteq> str ''+'' \<and>
     digitChar d \<noteq> 120 \<and> digitChar d \<noteq> 88"
  by (simp add: digitChar_def str_def)

lemma isDigit_digitChar: "d < 10 \<Longrightarrow> isDigit 10 (digitChar d)"
  by (simp add: isDigit_def digitVal_digitChar)

lemma digitsValue_snoc: "digitsValue R (xs @ [c]) = digitsValue R xs * R + the (digitVal c)"
  by (simp add: digitsValue_def)

lemma showNat_digits: "set (showNat n) \<subseteq> digitChar ` {..<10} \<and> showNat n \<noteq> []"
proof (induction n rule: showNat.induct)
  case (1 n)
  show ?case
  proof (cases "n < 10")
    case True
    then show ?thesis by (subst showNat.simps, subst (2) showNat.simps) auto
  next
    case False
    have "n mod 10 < 10" by simp
    then have "digitChar (n mod 10) \<in> digitChar ` {..<10}" by blast
    with False 1 show ?thesis by (subst showNat.simps, subst (2) showNat.simps) auto
  qed
qed

lemma digitsValue_showNat: "digitsValue 10 (showNat n) = n"
proof (induction n rule: showNat.induct)
  case (1 n)
  show ?case
  proof (cases "n < 10")
    case True
    then show ?thesis
      by (subst showNat.simps) (simp add: digitsValue_def digitVal_digitChar)
  next
    case False
    with 1 show ?thesis
      by (subst showNat.simps) (simp add: digitsValue_snoc digitVal_digitChar)
  qed
qed

lemma showNat_hd: "\<exists>d t. d < 10 \<and> showNat n = digitChar d # t \<and> set t \<subseteq> digitChar ` {..<10}"
  using showNat_digits [of n] by (cases "showNat n") auto

lemma takeWhile_all: "\<forall>x\<in>set xs. P x \<Longrightarrow> takeWhile P xs = xs"
  by (induction xs) auto

lemma showNat_no_prefix: "take 2 (showNat n) \<noteq> str ''0x'' \<and> take 2 (showNat n) \<noteq> str ''0X''"
proof -
  obtain d t where eq: "showNat n = digitChar d # t" and t: "set t \<subseteq> digitChar ` {..<10}"
    using showNat_hd by blast
  show ?thesis
  proof (cases t)
    case Nil
    then show ?thesis by (simp add: eq str_def)
  next
    case (Cons c u)
    then have "c \<in> digitChar ` {..<10}" using t by auto
    then have "c \<noteq> 120 \<and> c \<noteq> 88" using digitChar_not_sign by auto
    then show ?thesis by (simp add: eq Cons str_def)
  qed
qed

lemma showNat_first:
  "dropWhile isWhite (showNat n) = showNat n \<and> take 1 (showNat n) \<noteq> str ''-'' \<and>
   take 1 (showNat n) \<noteq> str ''+'' \<and> showNat n \<noteq> []"
proof -
  obtain d t where d: "d < 10" and eq: "showNat n = digitChar d # t"
    using showNat_hd by blast
  from digitChar_not_sign [OF d] isWhite_digitChar [OF d] show ?thesis
    by (simp add: eq)
qed

lemma takeWhile_showNat: "takeWhile (isDigit 10) (showNat n) = showNat n"
  using showNat_digits [of n] isDigit_digitChar by (intro takeWhile_all) auto

lemma parseIntString_showNat: "parseIntString (showNat n) = roundDouble (int n)"
  unfolding parseIntString_def Let_def
  using showNat_first [of n] showNat_no_prefix [of n]
  by (simp add: takeWhile_showNat digitsValue_showNat)

lemma parseIntString_minus: "parseIntString (str ''-'' @ showNat n) = roundDouble (- int n)"
proof -
  have m: "str ''-'' = [45]" by (simp add: str_def)
  have S: "dropWhile isWhite (str ''-'' @ showNat n) = str ''-'' @ showNat n"
    by (simp add: m isWhite_def)
  show ?thesis
    unfolding parseIntString_def Let_def S
    using showNat_first [of n] showNat_no_prefix [of n]
    by (simp add: m takeWhile_showNat digitsValue_showNat)
qed

lemma roundDouble_safe:
  assumes "\<bar>i\<bar> < 2 ^ 53"
  shows "roundDouble i = Num i"
proof -
  from assms have lt: "nat \<bar>i\<bar> < 2 ^ 53" by (simp add: nat_less_iff)
  then have r: "roundNat (nat \<bar>i\<bar>) = nat \<bar>i\<bar>" by (simp add: roundNat_def)
  have "(2::nat) ^ 53 \<le> 2 ^ 1024" by (rule power_increasing) simp_all
  with lt have "\<not> 2 ^ 1024 \<le> nat \<bar>i\<bar>" by linarith
  then show ?thesis unfolding roundDouble_def Let_def r by auto
qed

lemma mantissa_dec: "\<bar>m\<bar> < 10 ^ 15 \<Longrightarrow> \<bar>e\<bar> \<le> 290 \<Longrightarrow> mantissa (dec m e) = m"
  by (simp add: mantissa_def dec_def Abs_decimal_inverse)

lemma exponent_dec: "\<bar>m\<bar> < 10 ^ 15 \<Longrightarrow> \<bar>e\<bar> \<le> 290 \<Longrightarrow> exponent (dec m e) = e"
  by (simp add: exponent_def dec_def Abs_decimal_inverse)

lemma stripZeros_spec:
  "0 < s0 \<Longrightarrow> stripZeros s0 e0 = (s, e) \<Longrightarrow>
     0 < s \<and> e0 \<le> e \<and> s0 = s * 10 ^ nat (e - e0)"
proof (induction s0 e0 rule: stripZeros.induct)
  case (1 s0 e0)
  show ?case
  proof (cases "s0 mod 10 = 0")
    case True
    then have split: "s0 = s0 div 10 * 10" by presburger
    with "1.prems"(1) have pos: "0 < s0 div 10" by (cases "s0 div 10") auto
    from True "1.prems" have eq: "stripZeros (s0 div 10) (e0 + 1) = (s, e)"
      by (subst (asm) stripZeros.simps) simp
    from "1.IH" [OF _ pos eq] True "1.prems"
    have IH: "0 < s \<and> e0 + 1 \<le> e \<and> s0 div 10 = s * 10 ^ nat (e - (e0 + 1))" by simp
    then have "nat (e - e0) = Suc (nat (e - (e0 + 1)))" by arith
    then have "s * 10 ^ nat (e - e0) = s * 10 ^ nat (e - (e0 + 1)) * 10" by simp
    with IH split show ?thesis by simp
  next
    case False
    with "1.prems" have "s = s0" "e = e0" by (subst (asm) stripZeros.simps, simp)+
    with "1.prems" show ?thesis by simp
  qed
qed

lemma showNat_times10: "0 < t \<Longrightarrow> showNat (t * 10) = showNat t @ [48]"
  by (subst showNat.simps) (simp add: digitChar_def)

lemma showNat_pow10: "0 < s \<Longrightarrow> showNat (s * 10 ^ j) = showNat s @ replicate j 48"
proof (induction j)
  case 0
  then show ?case by simp
next
  case (Suc j)
  then have "showNat (s * 10 ^ j * 10) = showNat (s * 10 ^ j) @ [48]"
    by (intro showNat_times10) simp
  moreover have "s * 10 ^ Suc j = s * 10 ^ j * 10" by simp
  moreover have "replicate (Suc j) (48::nat) = replicate j 48 @ [48]"
    by (simp add: replicate_append_same)
  ultimately show ?case using Suc by (simp only: append_assoc)
qed

lemma length_showNat: "0 < j \<Longrightarrow> n < 10 ^ j \<Longrightarrow> length (showNat n) \<le> j"
proof (induction n arbitrary: j rule: showNat.induct)
  case (1 n)
  show ?case
  proof (cases "n < 10")
    case True
    with "1.prems" show ?thesis by (subst showNat.simps) simp
  next
    case False
    with "1.prems" obtain i where j: "j = Suc i" by (cases j) auto
    with False "1.prems" have i: "0 < i" by (cases i) auto
    from "1.prems" j have "n div 10 < 10 ^ i" by (simp add: less_mult_imp_div_less mult.commute)
    from "1.IH" [OF False i this] j False show ?thesis
      by (subst showNat.simps) simp
  qed
qed


lemma numberToString_int:
  assumes nz: "i \<noteq> 0" and bound: "\<bar>i\<bar> < 10 ^ 15"
  shows "numberToString (dec i 0) = showInt i"
proof -
  have m: "mantissa (dec i 0) = i" and x: "exponent (dec i 0) = 0"
    using bound by (simp_all add: mantissa_dec exponent_dec)
  obtain s e where st: "stripZeros (nat \<bar>i\<bar>) 0 = (s, e)" by force
  from nz have pos: "0 < nat \<bar>i\<bar>" by simp
  from stripZeros_spec [OF pos st] have s: "0 < s" and e: "0 \<le> e"
    and eq: "nat \<bar>i\<bar> = s * 10 ^ nat e" by simp_all
  have sh: "showNat (nat \<bar>i\<bar>) = showNat s @ replicate (nat e) 48"
    unfolding eq using s by (rule showNat_pow10)
  from bound have "nat \<bar>i\<bar> < 10 ^ 15" by (simp add: nat_less_iff)
  then have "length (showNat (nat \<bar>i\<bar>)) \<le> 15" by (intro length_showNat) simp_all
  with sh have len: "int (length (showNat s)) + e \<le> 21" using e by simp
  have body: "numberToString (dec i 0) =
      (if i < 0 then str ''-'' else []) @ showNat (nat \<bar>i\<bar>)"
    using nz e len by (simp add: numberToString_def m x st Let_def sh)
  show ?thesis
  proof (cases "i < 0")
    case True
    then have "nat \<bar>i\<bar> = nat (- i)" by simp
    with True body show ?thesis by (simp add: showInt_def)
  next
    case False
    then have "nat \<bar>i\<bar> = nat i" by simp
    with False body show ?thesis by (simp add: showInt_def)
  qed
qed

lemma showNat_0: "showNat 0 = str ''0''"
  by (simp add: showNat.simps digitChar_def str_def)

lemma toString_num: "\<bar>i\<bar> < 10 ^ 15 \<Longrightarrow> toString (num i) = showInt i"
proof (cases "i = 0")
  case True
  then show ?thesis
    by (simp add: num_def numberToString_def mantissa_dec showInt_def showNat_0)
next
  case False
  assume "\<bar>i\<bar> < 10 ^ 15"
  with False show ?thesis by (simp add: num_def numberToString_int)
qed

text \<open>On an integer of at most 15 digits \<^verbatim>\<open>parseInt\<close> reads back what \<^verbatim>\<open>toString\<close> wrote.\<close>

lemma parseInt_num:
  assumes "\<bar>i\<bar> < 10 ^ 15"
  shows "parseInt (num i) = Num i"
proof -
  from assms have safe: "\<bar>i\<bar> < 2 ^ 53" by simp
  have "parseInt (num i) = roundDouble i"
    by (simp add: parseInt_def toString_num [OF assms] showInt_def parseIntString_showNat
        parseIntString_minus)
  with roundDouble_safe [OF safe] show ?thesis by simp
qed

lemma truthy_num: "\<bar>i\<bar> < 10 ^ 15 \<Longrightarrow> truthy (num i) = (i \<noteq> 0)"
  by (simp add: num_def mantissa_dec)


lemma toString_fraction: "toString (JNum (dec 25 (- 1))) = str ''2.5''"
  by (simp add: numberToString_def mantissa_dec exponent_dec stripZeros.simps
      showNat.simps digitChar_def str_def)

lemma toString_1e21: "toString (JNum (dec 1 21)) = str ''1e+21''"
  by (simp add: numberToString_def mantissa_dec exponent_dec stripZeros.simps
      showNat.simps digitChar_def str_def)

lemma parseInt_1e21: "parseInt (JNum (dec 1 21)) = Num 1"
  by (simp add: parseInt_def numberToString_def mantissa_dec exponent_dec stripZeros.simps
      showNat.simps digitChar_def str_def parseIntString_def isWhite_def isDigit_def
      digitVal_def digitsValue_def roundDouble_safe)

text \<open>
  The digits of a number written out: a prefix of them is the number divided by a power of
  ten, and \<^verbatim>\<open>parseInt\<close> reads a run of digits up to the decimal point.
\<close>

lemma showNat_upper: "n < 10 ^ length (showNat n)"
proof (induction n rule: showNat.induct)
  case (1 n)
  show ?case
  proof (cases "n < 10")
    case True
    then show ?thesis by (subst showNat.simps) simp
  next
    case False
    with 1 have "n div 10 < 10 ^ length (showNat (n div 10))" by simp
    then have "n < 10 * 10 ^ length (showNat (n div 10))"
      by (simp add: div_less_iff_less_mult mult.commute)
    with False show ?thesis by (subst showNat.simps) simp
  qed
qed

lemma digitsValue_take_showNat:
  "i \<le> length (showNat n) \<Longrightarrow>
   digitsValue 10 (take i (showNat n)) = n div 10 ^ (length (showNat n) - i)"
proof (induction n arbitrary: i rule: showNat.induct)
  case (1 n)
  show ?case
  proof (cases "i = length (showNat n)")
    case True
    then show ?thesis by (simp add: digitsValue_showNat)
  next
    case ne: False
    show ?thesis
    proof (cases "n < 10")
      case True
      then have l: "showNat n = [digitChar n]" by (subst showNat.simps) simp
      with ne "1.prems" have "i = 0" by simp
      with l True show ?thesis by (simp add: digitsValue_def)
    next
      case False
      then have l: "showNat n = showNat (n div 10) @ [digitChar (n mod 10)]"
        by (subst showNat.simps) simp
      with ne "1.prems" have i: "i \<le> length (showNat (n div 10))" by simp
      from "1.IH" [OF False i]
      have "digitsValue 10 (take i (showNat (n div 10))) =
          n div 10 div 10 ^ (length (showNat (n div 10)) - i)" .
      moreover have "take i (showNat n) = take i (showNat (n div 10))"
        using i by (simp add: l)
      moreover have "length (showNat n) - i = Suc (length (showNat (n div 10)) - i)"
        using i by (simp add: l)
      ultimately show ?thesis by (simp add: div_mult2_eq)
    qed
  qed
qed

text \<open>
  \<^verbatim>\<open>parseInt\<close> on a run of decimal digits that ends the string or is followed by a
  point: the value of the run.
\<close>

lemma parseIntString_digits:
  assumes Z: "Z \<noteq> []" "set Z \<subseteq> digitChar ` {..<10}" and t: "t = [] \<or> hd t = 46"
  shows "parseIntString (Z @ t) = roundDouble (int (digitsValue 10 Z))"
    and "parseIntString (str ''-'' @ Z @ t) = roundDouble (- int (digitsValue 10 Z))"
proof -
  have m: "str ''-'' = [45]" "str ''+'' = [43]" "str ''0x'' = [48, 120]" "str ''0X'' = [48, 88]"
    by (simp_all add: str_def)
  from Z obtain z zs where z: "Z = z # zs" by (cases Z) auto
  with Z obtain d where d: "d < 10" "z = digitChar d" by auto
  have nd: "\<not> isDigit 10 46" by (simp add: isDigit_def digitVal_def)
  have all: "\<forall>x\<in>set Z. isDigit 10 x" using Z(2) isDigit_digitChar by auto
  have tw: "takeWhile (isDigit 10) (Z @ t) = Z"
  proof (cases t)
    case Nil
    with all show ?thesis by (simp add: takeWhile_all)
  next
    case (Cons c u)
    with t have "c = 46" by simp
    with Cons all nd show ?thesis by (simp add: takeWhile_append2)
  qed
  have second: "take 2 (Z @ t) \<noteq> [48, 120] \<and> take 2 (Z @ t) \<noteq> [48, 88]"
  proof (cases zs)
    case Nil
    with t z show ?thesis by (cases t) auto
  next
    case (Cons c u)
    with z Z(2) have "c \<in> digitChar ` {..<10}" by auto
    then have "c \<noteq> 120 \<and> c \<noteq> 88" using digitChar_not_sign by auto
    with z Cons show ?thesis by simp
  qed
  have w: "\<not> isWhite z" "z \<noteq> 45" "z \<noteq> 43"
    using isWhite_digitChar [OF d(1)] d by (simp_all add: digitChar_def)
  have S: "dropWhile isWhite (Z @ t) = Z @ t" using w by (simp add: z)
  have S': "dropWhile isWhite ([45] @ Z @ t) = 45 # Z @ t"
    by (simp add: isWhite_def)
  show "parseIntString (Z @ t) = roundDouble (int (digitsValue 10 Z))"
    unfolding parseIntString_def Let_def S m using w second Z(1)
    by (simp add: tw) (simp add: z)
  show "parseIntString (str ''-'' @ Z @ t) = roundDouble (- int (digitsValue 10 Z))"
    unfolding m parseIntString_def Let_def S' using second Z(1)
    by (simp add: tw)
qed


lemma decimal_bounds: "\<bar>mantissa d\<bar> < 10 ^ 15 \<and> \<bar>exponent d\<bar> \<le> 290"
  using Rep_decimal [of d] by (auto simp: mantissa_def exponent_def split: prod.splits)

lemma set_showNat: "set (showNat n) \<subseteq> digitChar ` {..<10}"
  using showNat_digits [of n] by simp

lemma showNat_nonempty: "showNat n \<noteq> []"
  using showNat_digits [of n] by simp

text \<open>
  The digits that \<^verbatim>\<open>toString\<close> writes before the point of a number in fixed notation are
  the digits of its whole part.
\<close>

lemma numberToString_fixed:
  assumes nz: "mantissa d \<noteq> 0" and fx: "fixedNotation d"
  shows "\<exists>Z t. numberToString d = (if mantissa d < 0 then str ''-'' else []) @ Z @ t \<and>
           Z \<noteq> [] \<and> set Z \<subseteq> digitChar ` {..<10} \<and> (t = [] \<or> hd t = 46) \<and>
           int (digitsValue 10 Z) = \<bar>truncDecimal d\<bar>"
proof -
  let ?m = "mantissa d" and ?e = "exponent d"
  let ?a = "nat \<bar>?m\<bar>"
  obtain s e' where st: "stripZeros ?a ?e = (s, e')" by force
  from nz have apos: "0 < ?a" by simp
  from stripZeros_spec [OF apos st] have s: "0 < s" and le: "?e \<le> e'"
    and a: "?a = s * 10 ^ nat (e' - ?e)" by simp_all
  let ?j = "nat (e' - ?e)"
  let ?ds = "showNat s"
  let ?k = "length ?ds"
  from decimal_bounds [of d] have a15: "?a < 10 ^ 15" by (simp add: nat_less_iff)
  have "s \<le> s * 10 ^ ?j" by simp
  with a15 have s15: "s < 10 ^ 15" using a by linarith
  then have k15: "?k \<le> 15" by (intro length_showNat) simp_all
  have kpos: "0 < ?k" using showNat_nonempty [of s] by simp
  have sk: "s < 10 ^ ?k" by (rule showNat_upper)
  have str: "str ''.'' = [46]" "str ''0.'' = [48, 46]" by (simp_all add: str_def)
  have nts: "numberToString d = (if ?m < 0 then str ''-'' else []) @
      (let n = int ?k + e' in
       if int ?k \<le> n \<and> n \<le> 21 then ?ds @ replicate (nat (n - int ?k)) 48
       else if 0 < n \<and> n \<le> 21 then take (nat n) ?ds @ str ''.'' @ drop (nat n) ?ds
       else if - 6 < n \<and> n \<le> 0 then str ''0.'' @ replicate (nat (- n)) 48 @ ?ds
       else (if int ?k = 1 then ?ds else take 1 ?ds @ str ''.'' @ drop 1 ?ds) @ str ''e'' @
            (if n - 1 < 0 then str ''-'' else str ''+'') @ showNat (nat \<bar>n - 1\<bar>))"
    using nz by (simp add: numberToString_def st Let_def)
  show ?thesis
  proof (cases "0 \<le> e'")
    case True
    let ?V = "s * 10 ^ nat e'"
    have sh: "showNat ?V = ?ds @ replicate (nat e') 48" using s by (rule showNat_pow10)
    have V: "int ?V = \<bar>truncDecimal d\<bar> \<and> ?V < 10 ^ 21"
    proof (cases "0 \<le> ?e")
      case e0: True
      with True le have "nat e' = ?j + nat ?e" by simp
      then have "?V = ?a * 10 ^ nat ?e" by (simp add: a power_add mult.assoc)
      moreover from fx have "\<bar>?m\<bar> * 10 ^ nat ?e < 10 ^ 21" by (simp add: fixedNotation_def)
      then have "int (?a * 10 ^ nat ?e) < int (10 ^ 21)" by simp
      then have "?a * 10 ^ nat ?e < 10 ^ 21" by (simp only: of_nat_less_iff)
      moreover have "\<bar>truncDecimal d\<bar> = int (?a * 10 ^ nat ?e)"
        using e0 by (simp add: truncDecimal_def abs_mult)
      ultimately show ?thesis by simp
    next
      case e0: False
      let ?f = "nat (- ?e)"
      from e0 True have j: "?j = nat e' + ?f" by simp
      have aa: "?a = ?V * 10 ^ ?f" by (simp add: a j power_add mult.assoc)
      then have dv: "?a div 10 ^ ?f = ?V" by simp
      have "\<bar>?m\<bar> div 10 ^ ?f = int (?a div 10 ^ ?f)"
        by (simp add: zdiv_int)
      then have tr: "\<bar>truncDecimal d\<bar> = int ?V"
        using e0 nz by (simp add: truncDecimal_def abs_mult dv abs_sgn_eq)
      have "?V \<le> ?a" using aa by simp
      moreover have "(10::nat) ^ 15 \<le> 10 ^ 21" by simp
      ultimately have "?V < 10 ^ 21" using a15 by linarith
      with tr show ?thesis by simp
    qed
    then have "length (showNat ?V) \<le> 21" by (intro length_showNat) simp_all
    with sh True have n21: "int ?k + e' \<le> 21" by simp
    from True n21 have "numberToString d = (if ?m < 0 then str ''-'' else []) @ showNat ?V @ []"
      by (simp add: nts Let_def sh)
    moreover have "showNat ?V \<noteq> []" "set (showNat ?V) \<subseteq> digitChar ` {..<10}"
      by (rule showNat_nonempty, rule set_showNat)
    moreover have "int (digitsValue 10 (showNat ?V)) = \<bar>truncDecimal d\<bar>"
      using V by (simp add: digitsValue_showNat)
    ultimately show ?thesis by blast
  next
    case False
    let ?g = "nat (- e')"
    let ?f = "nat (- ?e)"
    from False le have e0: "\<not> 0 \<le> ?e" and f: "?f = ?j + ?g" and gpos: "0 < ?g" by simp_all
    have "?a div 10 ^ ?f = s div 10 ^ ?g"
      by (simp add: a f power_add)
    moreover have "\<bar>?m\<bar> div 10 ^ ?f = int (?a div 10 ^ ?f)"
      by (simp add: zdiv_int)
    ultimately have T: "\<bar>truncDecimal d\<bar> = int (s div 10 ^ ?g)"
      using e0 nz by (simp add: truncDecimal_def abs_mult abs_sgn_eq)
    show ?thesis
    proof (cases "?g < ?k")
      case True
      define n where "n = ?k - ?g"
      from True False have n: "int ?k + e' = int n" by (simp add: n_def)
      from True k15 gpos have c: "\<not> ?k \<le> n" "0 < n" "n \<le> 21" "n \<le> ?k" "?k - n = ?g"
        by (simp_all add: n_def)
      have "numberToString d = (if ?m < 0 then str ''-'' else []) @
          (if int ?k \<le> int n \<and> int n \<le> 21 then ?ds @ replicate (nat (int n - int ?k)) 48
           else if 0 < int n \<and> int n \<le> 21 then take (nat (int n)) ?ds @ str ''.'' @ drop (nat (int n)) ?ds
           else undefined)"
        unfolding nts Let_def n using c by simp
      then have "numberToString d = (if ?m < 0 then str ''-'' else []) @ take n ?ds @ (46 # drop n ?ds)"
        using c by (simp add: str)
      moreover have "take n ?ds \<noteq> []" using c showNat_nonempty [of s] by simp
      moreover have "set (take n ?ds) \<subseteq> digitChar ` {..<10}"
        using set_showNat [of s] set_take_subset [of n ?ds] by blast
      moreover have "int (digitsValue 10 (take n ?ds)) = \<bar>truncDecimal d\<bar>"
        using c by (simp add: digitsValue_take_showNat T)
      ultimately show ?thesis by (intro exI [of _ "take n ?ds"] exI [of _ "46 # drop n ?ds"]) simp
    next
      case ge: False
      from fx have "10 ^ ?f \<le> \<bar>?m\<bar> * 10 ^ 6" by (simp add: fixedNotation_def)
      then have "int (10 ^ ?f) \<le> int (?a * 10 ^ 6)" by simp
      then have "(10::nat) ^ ?f \<le> ?a * 10 ^ 6" by (simp only: of_nat_le_iff)
      then have "(10::nat) ^ ?j * 10 ^ ?g \<le> 10 ^ ?j * (s * 10 ^ 6)"
        by (simp add: a f power_add mult.assoc mult.left_commute)
      then have "(10::nat) ^ ?g \<le> s * 10 ^ 6" by simp
      also have "\<dots> < 10 ^ ?k * 10 ^ 6" using sk by simp
      finally have "(10::nat) ^ ?g < 10 ^ (?k + 6)" by (simp add: power_add)
      then have g6: "?g < ?k + 6" by simp
      define z where "z = ?g - ?k"
      from ge False have n: "int ?k + e' = - int z" by (simp add: z_def)
      from g6 ge kpos have c: "z < 6" by (simp add: z_def)
      from kpos have kz: "\<not> int ?k \<le> - int z" by linarith
      have "numberToString d = (if ?m < 0 then str ''-'' else []) @
          (if int ?k \<le> - int z \<and> - int z \<le> 21 then undefined
           else if 0 < - int z \<and> - int z \<le> 21 then undefined
           else if - 6 < - int z \<and> - int z \<le> 0 then str ''0.'' @ replicate (nat (- (- int z))) 48 @ ?ds
           else undefined)"
        unfolding nts Let_def n using c kz by simp
      then have "numberToString d = (if ?m < 0 then str ''-'' else []) @ [48] @ (46 # replicate z 48 @ ?ds)"
        using c kz by (simp add: str)
      moreover have "s div 10 ^ ?g = 0"
      proof -
        from ge have "(10::nat) ^ ?k \<le> 10 ^ ?g" by (intro power_increasing) simp_all
        with sk have "s < 10 ^ ?g" by linarith
        then show ?thesis by (rule div_less)
      qed
      then have "int (digitsValue 10 [48]) = \<bar>truncDecimal d\<bar>"
        by (simp add: T digitsValue_def digitVal_def)
      moreover have "[48] \<noteq> []" "set [48] \<subseteq> digitChar ` {..<10}"
        by (auto simp: digitChar_def)
      ultimately show ?thesis
        by (intro exI [of _ "[48]"] exI [of _ "46 # replicate z 48 @ ?ds"]) simp
    qed
  qed
qed

lemma truncDecimal_sign:
  "mantissa d < 0 \<Longrightarrow> truncDecimal d \<le> 0" "0 \<le> mantissa d \<Longrightarrow> 0 \<le> truncDecimal d"
  by (auto simp: truncDecimal_def mult_le_0_iff zero_le_mult_iff sgn_if pos_imp_zdiv_nonneg_iff)

text \<open>
  \<^verbatim>\<open>parseInt\<close> of a number in fixed notation (and of zero) is its integer truncation.
\<close>

lemma parseInt_truncates:
  assumes "mantissa d = 0 \<or> fixedNotation d"
  shows "parseInt (JNum d) = roundDouble (truncDecimal d)"
proof (cases "mantissa d = 0")
  case True
  have "parseIntString (str ''0'') = Num 0"
    by (simp add: parseIntString_def isWhite_def isDigit_def digitVal_def digitsValue_def
        str_def roundDouble_safe)
  with True show ?thesis
    by (simp add: parseInt_def numberToString_def truncDecimal_def roundDouble_safe)
next
  case False
  with assms have fx: "fixedNotation d" by simp
  from numberToString_fixed [OF False fx] obtain Z t where
    eq: "numberToString d = (if mantissa d < 0 then str ''-'' else []) @ Z @ t"
    and Z: "Z \<noteq> []" "set Z \<subseteq> digitChar ` {..<10}" and t: "t = [] \<or> hd t = 46"
    and v: "int (digitsValue 10 Z) = \<bar>truncDecimal d\<bar>"
    by blast
  show ?thesis
  proof (cases "mantissa d < 0")
    case True
    with truncDecimal_sign(1) [of d] v have "- int (digitsValue 10 Z) = truncDecimal d" by simp
    with True parseIntString_digits(2) [OF Z t] show ?thesis
      by (simp add: parseInt_def eq)
  next
    case neg: False
    with truncDecimal_sign(2) [of d] v have "int (digitsValue 10 Z) = truncDecimal d" by simp
    with neg parseIntString_digits(1) [OF Z t] show ?thesis
      by (simp add: parseInt_def eq)
  qed
qed

lemma numberToString_nonempty: "numberToString d \<noteq> []"
  using showNat_digits
  by (auto simp: numberToString_def Let_def str_def split: prod.splits)

lemma truthy_castString: "truthy v \<Longrightarrow> castString v = Some t \<Longrightarrow> t \<noteq> []"
  using numberToString_nonempty by (cases v) (auto simp: str_def split: if_splits)

lemma castObjectId_truthy: "castObjectId v = Inr oid \<Longrightarrow> truthy v"
  by (cases v) (auto simp: castObjectId_def numberToString_def str_def split: if_splits)

lemma trim_Nil: "trim [] = []"
  by (simp add: trim_def)

lemma trim_spec:
  "\<exists>l t. s = l @ trim s @ t \<and> list_all isWhite l \<and> list_all isWhite t"
proof -
  let ?m = "dropWhile isWhite s"
  have 1: "s = takeWhile isWhite s @ ?m" by simp
  have "rev (takeWhile isWhite (rev ?m) @ dropWhile isWhite (rev ?m)) = rev (rev ?m)"
    by (simp only: takeWhile_dropWhile_id)
  then have "rev (dropWhile isWhite (rev ?m)) @ rev (takeWhile isWhite (rev ?m)) = ?m"
    by (simp only: rev_append rev_rev_ident)
  then have 2: "?m = trim s @ rev (takeWhile isWhite (rev ?m))"
    by (simp only: trim_def)
  have 3: "list_all isWhite (takeWhile isWhite s)"
    by (simp add: list_all_iff) (meson set_takeWhileD)
  have 4: "list_all isWhite (rev (takeWhile isWhite (rev ?m)))"
    by (simp add: list_all_iff) (meson set_takeWhileD)
  from 1 2 have "s = takeWhile isWhite s @ trim s @ rev (takeWhile isWhite (rev ?m))"
    by simp
  with 3 4 show ?thesis by blast
qed



text \<open>A string is trimmed to the empty string exactly when it is all white space.\<close>

lemma trim_empty_iff: "trim s = [] \<longleftrightarrow> (\<forall>c\<in>set s. isWhite c)"
proof
  assume "trim s = []"
  with trim_spec [of s] obtain l t where "s = l @ t" "list_all isWhite l" "list_all isWhite t"
    by auto
  then show "\<forall>c\<in>set s. isWhite c" by (auto simp: list_all_iff)
next
  assume "\<forall>c\<in>set s. isWhite c"
  then have d: "dropWhile isWhite s = []" by simp
  show "trim s = []" unfolding trim_def d by simp
qed

subsection \<open>Lists\<close>

lemma find_SomeD1: "find P xs = Some x \<Longrightarrow> x \<in> set xs \<and> P x"
  by (induction xs) (auto split: if_splits)

lemma updateFirst_find_None: "find P xs = None \<Longrightarrow> updateFirst P f xs = xs"
  by (induction xs) (auto split: if_splits)

lemma map_updateFirst: "(\<And>x. g (f x) = g x) \<Longrightarrow> map g (updateFirst P f xs) = map g xs"
  by (induction xs) auto

lemma updateFirst_changed:
  "i < length xs \<Longrightarrow> updateFirst P f xs ! i \<noteq> xs ! i \<Longrightarrow> P (xs ! i) \<and> (\<forall>k<i. \<not> P (xs ! k))"
proof (induction xs arbitrary: i)
  case Nil
  then show ?case by simp
next
  case (Cons x xs)
  show ?case
  proof (cases "P x")
    case True
    with Cons.prems show ?thesis by (cases i) auto
  next
    case False
    with Cons.prems obtain j where j: "i = Suc j" by (cases i) auto
    with Cons.prems False have "j < length xs" "updateFirst P f xs ! j \<noteq> xs ! j" by auto
    from Cons.IH [OF this] have "P (xs ! j) \<and> (\<forall>k<j. \<not> P (xs ! k))" .
    with False j show ?thesis by (auto simp: less_Suc_eq_0_disj)
  qed
qed

lemma find_updateFirst:
  "(\<And>x. P (f x) = P x) \<Longrightarrow> find P (updateFirst P f xs) = map_option f (find P xs)"
  by (induction xs) auto

lemma updateFirst_distinct:
  "distinct (map key xs) \<Longrightarrow>
   updateFirst (\<lambda>x. key x = k) f xs = map (\<lambda>x. if key x = k then f x else x) xs"
proof (induction xs)
  case Nil
  then show ?case by simp
next
  case (Cons a xs)
  show ?case
  proof (cases "key a = k")
    case True
    from Cons.prems have "key a \<notin> key ` set xs" by simp
    with True have "\<forall>x\<in>set xs. key x \<noteq> k" by blast
    then have "map (\<lambda>x. if key x = k then f x else x) xs = xs"
      by (simp add: map_idI)
    with True show ?thesis by simp
  next
    case False
    with Cons show ?thesis by simp
  qed
qed

lemma mset_deleteFirst: "find P xs = Some x \<Longrightarrow> mset (deleteFirst P xs) = mset xs - {#x#}"
proof (induction xs)
  case Nil
  then show ?case by simp
next
  case (Cons a xs)
  show ?case
  proof (cases "P a")
    case True
    with Cons.prems show ?thesis by simp
  next
    case False
    with Cons.prems have f: "find P xs = Some x" by simp
    then have "x \<in># mset xs" using find_SomeD1 by fastforce
    with False Cons.IH [OF f] show ?thesis by simp
  qed
qed

lemma deleteFirst_key:
  "distinct (map key xs) \<Longrightarrow> y \<in> set (deleteFirst (\<lambda>x. key x = k) xs) \<Longrightarrow> key y \<noteq> k"
  by (induction xs) (force split: if_splits)+

lemma filter_pos: "x \<in> set xs \<Longrightarrow> Q x \<Longrightarrow> 0 < length (filter Q xs)"
  by (induction xs) auto

lemma filter_deleteFirst:
  "find P xs = Some x \<Longrightarrow>
   length (filter Q (deleteFirst P xs)) = length (filter Q xs) - (if Q x then 1 else 0)"
proof (induction xs)
  case Nil
  then show ?case by simp
next
  case (Cons a xs)
  show ?case
  proof (cases "P a")
    case True
    with Cons.prems show ?thesis by simp
  next
    case False
    with Cons.prems have f: "find P xs = Some x" by simp
    then have "x \<in> set xs" using find_SomeD1 by fastforce
    then have "Q x \<Longrightarrow> 0 < length (filter Q xs)" by (rule filter_pos)
    with False Cons.IH [OF f] show ?thesis by auto
  qed
qed

subsection \<open>Outcomes of the handlers\<close>

lemma roomFilter_eq: "castString rn = Some k \<Longrightarrow> roomFilter rn = (\<lambda>x. roomNumber x = k)"
  by (auto simp: roomFilter_def fun_eq_iff)

lemma set_getBookings: "set (getBookings s) = set (bookings s)"
  by (simp add: getBookings_def)

lemma mset_getBookings: "mset (getBookings s) = mset (bookings s)"
  by (simp add: getBookings_def)

lemma book_store_cases:
  "snd (book s oid now b) = s \<or>
   (\<exists>nb. snd (book s oid now b) =
      s\<lparr>bookings := bookings s @ [nb],
        rooms := updateFirst (roomFilter (bodyField b ''roomNumber'')) (\<lambda>x. x\<lparr>available := False\<rparr>) (rooms s)\<rparr>)"
  by (auto simp: book_def book_try_def Let_def split: option.splits sum.splits)

lemma cancel_store_cases:
  "snd (cancel s b) = s \<or>
   (\<exists>oid. snd (cancel s b) =
      s\<lparr>bookings := deleteFirst (\<lambda>x. b_id x = oid) (bookings s),
        rooms := updateFirst (roomFilter (bodyField b ''roomNumber'')) (\<lambda>x. x\<lparr>available := True\<rparr>) (rooms s)\<rparr>)"
  by (auto simp: cancel_def cancel_try_def Let_def split: option.splits sum.splits)

lemma rooms_after_book:
  "rooms (snd (book s oid now b)) = rooms s \<or>
   rooms (snd (book s oid now b)) =
     updateFirst (roomFilter (bodyField b ''roomNumber'')) (\<lambda>x. x\<lparr>available := False\<rparr>) (rooms s)"
  using book_store_cases [of s oid now b] by auto

lemma rooms_after_cancel:
  "rooms (snd (cancel s b)) = rooms s \<or>
   rooms (snd (cancel s b)) =
     updateFirst (roomFilter (bodyField b ''roomNumber'')) (\<lambda>x. x\<lparr>available := True\<rparr>) (rooms s)"
  using cancel_store_cases [of s b] by auto

lemma frame_updateFirst:
  fixes v :: bool
  assumes "rs' = rs \<or> rs' = updateFirst (roomFilter rn) (\<lambda>x. x\<lparr>available := v\<rparr>) rs"
  shows "map roomNumber rs' = map roomNumber rs \<and> map roomType rs' = map roomType rs \<and>
         map price rs' = map price rs \<and>
         (\<forall>i<length rs. rs' ! i \<noteq> rs ! i \<longrightarrow>
            roomFilter rn (rs ! i) \<and> (\<forall>k<i. \<not> roomFilter rn (rs ! k)))"
  using assms by (auto simp: map_updateFirst dest: updateFirst_changed)

lemma castNumber_ok: "x \<noteq> NaN \<Longrightarrow> castNumber x = Inr x"
  by (cases x) simp_all

lemma roundDouble_not_NaN: "roundDouble i \<noteq> NaN"
  by (simp add: roundDouble_def Let_def)

lemma book_success:
  assumes gn: "bodyField b ''guestName'' = JStr gn" "trim gn \<noteq> []"
    and gp: "bodyField b ''guestPhone'' = JStr gp" "trim gp \<noteq> []"
    and rn: "truthy (bodyField b ''roomNumber'')"
      "find (roomFilter (bodyField b ''roomNumber'')) (rooms s) = Some r" "available r"
    and d: "truthy (bodyField b ''days'')" "parseInt (bodyField b ''days'') \<noteq> NaN"
      "mulNum (price r) (parseInt (bodyField b ''days'')) \<noteq> NaN"
    and fresh: "oid \<notin> b_id ` set (bookings s)"
  shows "book s oid now b =
           (Reply 201 ''Booking Successful!''
              (Some \<lparr>b_id = oid, guestName = trim gn, guestPhone = trim gp,
                     b_roomNumber = roomNumber r, days = parseInt (bodyField b ''days''),
                     totalAmount = mulNum (price r) (parseInt (bodyField b ''days'')),
                     createdAt = now\<rparr>),
            s\<lparr>bookings := bookings s @
                 [\<lparr>b_id = oid, guestName = trim gn, guestPhone = trim gp,
                     b_roomNumber = roomNumber r, days = parseInt (bodyField b ''days''),
                     totalAmount = mulNum (price r) (parseInt (bodyField b ''days'')),
                     createdAt = now\<rparr>],
              rooms := updateFirst (roomFilter (bodyField b ''roomNumber''))
                         (\<lambda>x. x\<lparr>available := False\<rparr>) (rooms s)\<rparr>) \<and>
         find (roomFilter (bodyField b ''roomNumber'')) (rooms (snd (book s oid now b))) =
           Some (r\<lparr>available := False\<rparr>)"
proof -
  have c: "castString (bodyField b ''roomNumber'') = Some (roomNumber r)"
    using find_SomeD1 [OF rn(2)] by (simp add: roomFilter_def)
  have ne: "roomNumber r \<noteq> []"
    using truthy_castString [OF rn(1) c] .
  have g: "gn \<noteq> []" "gp \<noteq> []"
    using gn(2) gp(2) trim_Nil by auto
  have eq: "book s oid now b =
           (Reply 201 ''Booking Successful!''
              (Some \<lparr>b_id = oid, guestName = trim gn, guestPhone = trim gp,
                     b_roomNumber = roomNumber r, days = parseInt (bodyField b ''days''),
                     totalAmount = mulNum (price r) (parseInt (bodyField b ''days'')),
                     createdAt = now\<rparr>),
            s\<lparr>bookings := bookings s @
                 [\<lparr>b_id = oid, guestName = trim gn, guestPhone = trim gp,
                     b_roomNumber = roomNumber r, days = parseInt (bodyField b ''days''),
                     totalAmount = mulNum (price r) (parseInt (bodyField b ''days'')),
                     createdAt = now\<rparr>],
              rooms := updateFirst (roomFilter (bodyField b ''roomNumber''))
                         (\<lambda>x. x\<lparr>available := False\<rparr>) (rooms s)\<rparr>)"
    using gn gp rn d(1) fresh c ne g
    by (simp add: book_def book_try_def Let_def newBooking_def checkRequired_def
        castNumber_ok [OF d(2)] castNumber_ok [OF d(3)])
  have "find (roomFilter (bodyField b ''roomNumber''))
          (updateFirst (roomFilter (bodyField b ''roomNumber'')) (\<lambda>x. x\<lparr>available := False\<rparr>) (rooms s)) =
        Some (r\<lparr>available := False\<rparr>)"
    by (subst find_updateFirst) (simp_all add: roomFilter_def rn(2))
  with eq show ?thesis by simp
qed

lemma book_created:
  assumes "status (fst (book s oid now b)) = 201"
  shows "\<exists>gn gp r.
           bodyField b ''guestName'' = JStr gn \<and> bodyField b ''guestPhone'' = JStr gp \<and>
           find (roomFilter (bodyField b ''roomNumber'')) (rooms s) = Some r \<and> available r \<and>
           trim gn \<noteq> [] \<and> trim gp \<noteq> [] \<and>
           parseInt (bodyField b ''days'') \<noteq> NaN \<and>
           mulNum (price r) (parseInt (bodyField b ''days'')) \<noteq> NaN \<and>
           book s oid now b =
             (Reply 201 ''Booking Successful!''
              (Some \<lparr>b_id = oid, guestName = trim gn, guestPhone = trim gp,
                     b_roomNumber = roomNumber r, days = parseInt (bodyField b ''days''),
                     totalAmount = mulNum (price r) (parseInt (bodyField b ''days'')),
                     createdAt = now\<rparr>),
            s\<lparr>bookings := bookings s @
                 [\<lparr>b_id = oid, guestName = trim gn, guestPhone = trim gp,
                     b_roomNumber = roomNumber r, days = parseInt (bodyField b ''days''),
                     totalAmount = mulNum (price r) (parseInt (bodyField b ''days'')),
                     createdAt = now\<rparr>],
              rooms := updateFirst (roomFilter (bodyField b ''roomNumber''))
                         (\<lambda>x. x\<lparr>available := False\<rparr>) (rooms s)\<rparr>)"
proof -
  let ?gn = "bodyField b ''guestName''" and ?gp = "bodyField b ''guestPhone''"
  let ?rn = "bodyField b ''roomNumber''" and ?d = "bodyField b ''days''"
  from assms have t: "truthy ?gn" "truthy ?gp" "truthy ?rn" "truthy ?d"
    by (auto simp: book_def book_try_def Let_def split: if_splits)
  from assms t obtain r where r: "find (roomFilter ?rn) (rooms s) = Some r"
    by (cases "find (roomFilter ?rn) (rooms s)") (auto simp: book_def book_try_def Let_def)
  from assms t r have av: "available r"
    by (auto simp: book_def book_try_def Let_def split: if_splits)
  from assms t r av obtain gn where gn: "?gn = JStr gn"
    by (cases ?gn) (auto simp: book_def book_try_def Let_def)
  from assms t r av gn obtain gp where gp: "?gp = JStr gp"
    by (cases ?gp) (auto simp: book_def book_try_def Let_def)
  from assms t r av gn gp have tg: "trim gn \<noteq> []" "trim gp \<noteq> []"
    by (auto simp: book_def book_try_def Let_def newBooking_def checkRequired_def split: if_splits)
  from assms t r av gn gp tg have n: "parseInt ?d \<noteq> NaN"
    by (auto simp: book_def book_try_def Let_def newBooking_def checkRequired_def
        split: option.splits sum.splits)
  from assms t r av gn gp tg n have a: "mulNum (price r) (parseInt ?d) \<noteq> NaN"
    by (auto simp: book_def book_try_def Let_def newBooking_def checkRequired_def
        castNumber_ok split: option.splits sum.splits)
  from assms t r av gn gp tg n a have fresh: "oid \<notin> b_id ` set (bookings s)"
    by (auto simp: book_def book_try_def Let_def newBooking_def checkRequired_def
        castNumber_ok split: option.splits sum.splits if_splits)
  from book_success [OF gn tg(1) gp tg(2) t(3) r av t(4) n a fresh] gn gp n a r av tg
  show ?thesis by blast
qed

lemma book_failed: "status (fst (book s oid now b)) \<noteq> 201 \<Longrightarrow> snd (book s oid now b) = s"
  by (auto simp: book_def book_try_def Let_def split: option.splits sum.splits if_splits)

lemma cancel_success:
  assumes "castObjectId (bodyField b ''id'') = Inr oid"
    and "find (\<lambda>x. b_id x = oid) (bookings s) = Some bk"
    and "truthy (bodyField b ''roomNumber'')"
  shows "cancel s b =
           (Reply 200 ''Booking Cancelled Successfully!'' None,
            s\<lparr>bookings := deleteFirst (\<lambda>x. b_id x = oid) (bookings s),
              rooms := updateFirst (roomFilter (bodyField b ''roomNumber''))
                         (\<lambda>x. x\<lparr>available := True\<rparr>) (rooms s)\<rparr>)"
  using assms castObjectId_truthy [OF assms(1)]
  by (simp add: cancel_def cancel_try_def Let_def)

text \<open>The request the front end builds from a listed booking is matched.\<close>

lemma cancelBooking_matched:
  assumes "castObjectId i = Inr (b_id bk)"
    and "find (\<lambda>x. b_id x = b_id bk) (bookings s) = Some bk"
  shows "matched s (CancelReq (cancelBody i (JStr (b_roomNumber bk))))"
  using assms by (simp add: bodyField_def cancelBody_def)

lemma cancel_cases:
  "snd (cancel s b) = s \<or>
   (\<exists>oid bk. castObjectId (bodyField b ''id'') = Inr oid \<and>
      find (\<lambda>x. b_id x = oid) (bookings s) = Some bk \<and> truthy (bodyField b ''roomNumber''))"
  by (auto simp: cancel_def cancel_try_def Let_def split: option.splits sum.splits)

subsection \<open>The example requests\<close>

lemma str_empty_iff: "str s = [] \<longleftrightarrow> s = []" "[] = str s \<longleftrightarrow> s = []"
  by (auto simp: str_def)

lemma bodyField_bookBody:
  "bodyField (bookBody gn gp rn d) ''guestName'' = gn"
  "bodyField (bookBody gn gp rn d) ''guestPhone'' = gp"
  "bodyField (bookBody gn gp rn d) ''roomNumber'' = rn"
  "bodyField (bookBody gn gp rn d) ''days'' = d"
  by (simp_all add: bodyField_def bookBody_def)

lemma bodyField_cancelBody:
  "bodyField (cancelBody i rn) ''id'' = i"
  "bodyField (cancelBody i rn) ''roomNumber'' = rn"
  by (simp_all add: bodyField_def cancelBody_def)

lemma seeded_eq:
  "seeded = \<lparr>rooms = sampleRooms, bookings = []\<rparr>"
  by (simp add: seeded_def initializeData_def emptyStore_def)

lemma castObjectId_annId: "castObjectId annId = Inr 10"
  by (simp add: castObjectId_def annId_def isDigit_def digitVal_def digitsValue_def str_def)

lemma castObjectId_2: "castObjectId (JStr (str ''000000000000000000000002'')) = Inr 2"
  by (simp add: castObjectId_def isDigit_def digitVal_def digitsValue_def str_def)

lemma castObjectId_2e23: "castObjectId (JNum (dec 2 23)) = Inl CastError"
  by (simp add: castObjectId_def numberToString_def mantissa_dec exponent_dec stripZeros.simps
      showNat.simps digitChar_def str_def)

lemma castObjectId_abc: "castObjectId (JStr (str ''abc'')) = Inl CastError"
  by (simp add: castObjectId_def str_def)

lemma truthy_annId: "truthy annId"
  by (simp add: annId_def str_def)

lemma trim_Ann: "trim (str ''Ann'') = str ''Ann''" "trim (str ''5550101'') = str ''5550101''"
  by (simp_all add: trim_def isWhite_def str_def)

lemma trim_examples:
  "trim (str ''  Ann Lee '') = str ''Ann Lee''" "trim (str ''   '') = []"
  "trim (160 # str ''  Ann Lee '' @ [8232]) = str ''Ann Lee''"
  by (simp_all add: trim_def isWhite_def str_def)

lemma parseInt_3_nights: "parseInt (JStr (str ''3 nights'')) = Num 3"
  by (simp add: parseInt_def parseIntString_def isWhite_def isDigit_def digitVal_def
      digitsValue_def str_def roundDouble_safe)

lemma find_101_seeded:
  "find (roomFilter (JStr (str ''101''))) (rooms seeded) =
     Some \<lparr>roomNumber = str ''101'', roomType = str ''Single'', price = 1000, available = True\<rparr>"
  by (simp add: seeded_eq sampleRooms_def roomFilter_def str_eq_iff)

lemma find_999_seeded: "find (roomFilter (JStr (str ''999''))) (rooms seeded) = None"
  by (simp add: seeded_eq sampleRooms_def roomFilter_def str_eq_iff)

lemma find_101_annStore:
  "find (roomFilter (JStr (str ''101''))) (rooms annStore) =
     Some \<lparr>roomNumber = str ''101'', roomType = str ''Single'', price = 1000, available = False\<rparr>"
  by (simp add: annStore_def roomFilter_def str_eq_iff)

lemma find_annBooking: "find (\<lambda>x. b_id x = 10) (bookings annStore) = Some annBooking"
  by (simp add: annStore_def annBooking_def)

lemma book_ann: "book seeded 10 100 annBody = (Reply 201 ''Booking Successful!'' (Some annBooking), annStore)"
  by (simp add: book_def book_try_def annBody_def bodyField_bookBody seeded_eq sampleRooms_def
      roomFilter_def str_eq_iff str_empty_iff truthy_num roundDouble_safe parseInt_num trim_Ann newBooking_def checkRequired_def annBooking_def annStore_def)

lemma book_ann_lee:
  "book seeded 7 100 (bookBody (JStr (str ''  Ann Lee '')) (JStr (str ''5550101'')) (JStr (str ''101'')) (JStr (str ''3 nights''))) =
     (Reply 201 ''Booking Successful!''
        (Some \<lparr>b_id = 7, guestName = str ''Ann Lee'', guestPhone = str ''5550101'', b_roomNumber = str ''101'',
               days = Num 3, totalAmount = Num 3000, createdAt = 100\<rparr>),
      \<lparr>rooms =
         [\<lparr>roomNumber = str ''101'', roomType = str ''Single'', price = 1000, available = False\<rparr>,
          \<lparr>roomNumber = str ''102'', roomType = str ''Double'', price = 1500, available = True\<rparr>,
          \<lparr>roomNumber = str ''103'', roomType = str ''Deluxe'', price = 2000, available = True\<rparr>],
       bookings =
         [\<lparr>b_id = 7, guestName = str ''Ann Lee'', guestPhone = str ''5550101'', b_roomNumber = str ''101'',
            days = Num 3, totalAmount = Num 3000, createdAt = 100\<rparr>]\<rparr>)"
  by (simp add: book_def book_try_def bodyField_bookBody seeded_eq sampleRooms_def
      roomFilter_def str_eq_iff str_empty_iff truthy_num roundDouble_safe parseInt_3_nights trim_examples trim_Ann newBooking_def checkRequired_def)


lemma cancel_ann_101:
  "cancel annStore (cancelBody annId (JStr (str ''101''))) =
     (Reply 200 ''Booking Cancelled Successfully!'' None, seeded)"
  by (simp add: cancel_def cancel_try_def bodyField_cancelBody castObjectId_annId truthy_annId
      annStore_def annBooking_def roomFilter_def str_eq_iff str_empty_iff seeded_eq sampleRooms_def)

lemma cancel_ann_999:
  "cancel annStore (cancelBody annId (JStr (str ''999''))) =
     (Reply 200 ''Booking Cancelled Successfully!'' None,
      \<lparr>rooms =
         [\<lparr>roomNumber = str ''101'', roomType = str ''Single'', price = 1000, available = False\<rparr>,
          \<lparr>roomNumber = str ''102'', roomType = str ''Double'', price = 1500, available = True\<rparr>,
          \<lparr>roomNumber = str ''103'', roomType = str ''Deluxe'', price = 2000, available = True\<rparr>],
       bookings = []\<rparr>)"
  by (simp add: cancel_def cancel_try_def bodyField_cancelBody castObjectId_annId truthy_annId
      annStore_def annBooking_def roomFilter_def str_eq_iff str_empty_iff)

lemma handle_book_ann: "handle seeded (BookReq 10 100 annBody) = annStore"
  by (simp add: book_ann)

subsection \<open>The listings\<close>

text \<open>
  C9. In every state of the store the room listing is the stored rooms in ascending order
  of their room number, and the booking listing is the stored bookings in descending order
  of their creation time stamp (newest first).
\<close>

theorem listings_sorted:
  "sorted (map roomNumber (getRooms s)) \<and> mset (getRooms s) = mset (rooms s) \<and>
   sorted (rev (map createdAt (getBookings s))) \<and> mset (getBookings s) = mset (bookings s)"
  by (simp add: getRooms_def getBookings_def rev_map)

subsection \<open>Booking a room\<close>

text \<open>
  C2 (as amended). A book request whose guestName and guestPhone are strings with a
  character that is not white space, whose roomNumber is present and names an available
  room, and whose days is present and has a finite \<^verbatim>\<open>parseInt\<close> value \<open>n\<close> creates a booking
  with \<open>days = n\<close> and \<open>totalAmount = price * n\<close> for that room's price (the product of
  doubles: exact below \<open>2 ^ 53\<close>, rounded beyond), appends it to the bookings, sets the
  room's available flag to false and returns the booking with status 201. (The identifier
  generated for the document is fresh.) When the submitted \<open>days\<close> is a whole number of at
  most 15 digits, \<open>n\<close> is that number; when it is a number written in fixed notation, \<open>n\<close>
  is its integer truncation, rounded to a double.
\<close>

theorem book_available:
  assumes gn: "bodyField b ''guestName'' = JStr gn"
    and gp: "bodyField b ''guestPhone'' = JStr gp"
    and nonblank: "\<forall>g\<in>{gn, gp}. \<exists>c\<in>set g.
        c \<notin> {9, 10, 11, 12, 13, 32, 160, 5760, 8192, 8193, 8194, 8195, 8196, 8197, 8198,
              8199, 8200, 8201, 8202, 8232, 8233, 8239, 8287, 12288, 65279}"
    and rn: "truthy (bodyField b ''roomNumber'')"
      "find (roomFilter (bodyField b ''roomNumber'')) (rooms s) = Some r" "available r"
    and d: "truthy (bodyField b ''days'')" "parseInt (bodyField b ''days'') = Num n"
    and fresh: "oid \<notin> b_id ` set (bookings s)"
  shows "book s oid now b =
           (Reply 201 ''Booking Successful!''
              (Some \<lparr>b_id = oid, guestName = trim gn, guestPhone = trim gp,
                     b_roomNumber = roomNumber r, days = Num n,
                     totalAmount = roundDouble (price r * n), createdAt = now\<rparr>),
            s\<lparr>bookings := bookings s @
                 [\<lparr>b_id = oid, guestName = trim gn, guestPhone = trim gp,
                   b_roomNumber = roomNumber r, days = Num n,
                   totalAmount = roundDouble (price r * n), createdAt = now\<rparr>],
              rooms := updateFirst (roomFilter (bodyField b ''roomNumber''))
                         (\<lambda>x. x\<lparr>available := False\<rparr>) (rooms s)\<rparr>) \<and>
         find (roomFilter (bodyField b ''roomNumber'')) (rooms (snd (book s oid now b))) =
           Some (r\<lparr>available := False\<rparr>) \<and>
         (\<bar>price r * n\<bar> < 2 ^ 53 \<longrightarrow> roundDouble (price r * n) = Num (price r * n)) \<and>
         (\<forall>i. \<bar>i\<bar> < 10 ^ 15 \<longrightarrow> bodyField b ''days'' = num i \<longrightarrow> n = i) \<and>
         (\<forall>x. bodyField b ''days'' = JNum x \<longrightarrow> fixedNotation x \<longrightarrow>
              Num n = roundDouble (truncDecimal x))"
proof -
  from nonblank have "\<not> (\<forall>c\<in>set gn. isWhite c)" "\<not> (\<forall>c\<in>set gp. isWhite c)"
    unfolding isWhite_iff by blast+
  then have t: "trim gn \<noteq> []" "trim gp \<noteq> []"
    by (simp_all add: trim_empty_iff)
  have p: "parseInt (bodyField b ''days'') \<noteq> NaN"
    "mulNum (price r) (parseInt (bodyField b ''days'')) \<noteq> NaN"
    by (simp_all add: d(2) roundDouble_not_NaN)
  note bs = book_success [where now = now, OF gn t(1) gp t(2) rn d(1) p fresh,
      unfolded d(2) mulNum.simps]
  have w: "\<forall>i. \<bar>i\<bar> < 10 ^ 15 \<longrightarrow> bodyField b ''days'' = num i \<longrightarrow> n = i"
    using d(2) by (auto simp: parseInt_num)
  have tr: "\<forall>x. bodyField b ''days'' = JNum x \<longrightarrow> fixedNotation x \<longrightarrow>
      Num n = roundDouble (truncDecimal x)"
    using d(2) by (auto simp: parseInt_truncates)
  from bs roundDouble_safe [of "price r * n"] w tr show ?thesis by blast
qed

theorem book_available_witness:
  "book seeded 7 100 (bookBody (JStr (str ''  Ann Lee '')) (JStr (str ''5550101'')) (JStr (str ''101'')) (JStr (str ''3 nights''))) =
     (Reply 201 ''Booking Successful!''
        (Some \<lparr>b_id = 7, guestName = str ''Ann Lee'', guestPhone = str ''5550101'',
               b_roomNumber = str ''101'', days = Num 3, totalAmount = Num 3000,
               createdAt = 100\<rparr>),
      seeded\<lparr>bookings := bookings seeded @
          [\<lparr>b_id = 7, guestName = str ''Ann Lee'', guestPhone = str ''5550101'',
            b_roomNumber = str ''101'', days = Num 3, totalAmount = Num 3000,
            createdAt = 100\<rparr>],
        rooms := updateFirst (roomFilter (JStr (str ''101''))) (\<lambda>x. x\<lparr>available := False\<rparr>) (rooms seeded)\<rparr>)"
proof -
  let ?b = "bookBody (JStr (str ''  Ann Lee '')) (JStr (str ''5550101'')) (JStr (str ''101'')) (JStr (str ''3 nights''))"
  have fresh: "7 \<notin> b_id ` set (bookings seeded)" by (simp add: seeded_eq)
  have nonblank: "\<forall>g\<in>{str ''  Ann Lee '', str ''5550101''}. \<exists>c\<in>set g.
        c \<notin> {9, 10, 11, 12, 13, 32, 160, 5760, 8192, 8193, 8194, 8195, 8196, 8197, 8198,
              8199, 8200, 8201, 8202, 8232, 8233, 8239, 8287, 12288, 65279}"
    by (simp add: str_def)
  have t: "truthy (bodyField ?b ''roomNumber'')" "truthy (bodyField ?b ''days'')"
    by (simp_all add: bodyField_bookBody str_empty_iff)
  have f: "find (roomFilter (bodyField ?b ''roomNumber'')) (rooms seeded) =
      Some \<lparr>roomNumber = str ''101'', roomType = str ''Single'', price = 1000, available = True\<rparr>"
    by (simp add: bodyField_bookBody find_101_seeded)
  have p: "parseInt (bodyField ?b ''days'') = Num 3"
    by (simp add: bodyField_bookBody parseInt_3_nights)
  from book_available [of ?b "str ''  Ann Lee ''" "str ''5550101''", OF _ _ nonblank t(1) f _ t(2) p fresh]
  show ?thesis
    by (simp add: bodyField_bookBody trim_examples trim_Ann roundDouble_safe)
qed

text \<open>
  With all four fields present and room 101 available, a guest name of three spaces is
  trimmed to the empty string, the \<^verbatim>\<open>required\<close> validator refuses it when the booking is
  saved, and the reply is 500; nothing is stored.
\<close>

theorem book_blank_name:
  "truthy (JStr (str ''   '')) \<and> truthy (JStr (str ''5550101'')) \<and> truthy (JStr (str ''101'')) \<and> truthy (num 2) \<and>
   find (roomFilter (JStr (str ''101''))) (rooms seeded) =
     Some \<lparr>roomNumber = str ''101'', roomType = str ''Single'', price = 1000, available = True\<rparr> \<and>
   book seeded 10 100 (bookBody (JStr (str ''   '')) (JStr (str ''5550101'')) (JStr (str ''101'')) (num 2)) =
     (Reply 500 ''Error creating booking'' None, seeded)"
  by (simp add: book_def book_try_def bodyField_bookBody find_101_seeded trim_examples trim_Ann
      parseInt_num truthy_num str_empty_iff roundDouble_safe newBooking_def checkRequired_def)

text \<open>
  C3 (as amended). A book request whose roomNumber names no room, or names a room that is
  not available, creates no booking and leaves the store as it was. Its status is 404 when
  the four fields are all present and the room is unknown, and 400 otherwise (a field is
  absent or falsy, or the room is not available).
\<close>

theorem book_unbookable:
  assumes "case find (roomFilter (bodyField b ''roomNumber'')) (rooms s) of
             None \<Rightarrow> True | Some r \<Rightarrow> \<not> available r"
  shows "snd (book s oid now b) = s \<and> payload (fst (book s oid now b)) = None \<and>
         status (fst (book s oid now b)) =
           (if truthy (bodyField b ''guestName'') \<and> truthy (bodyField b ''guestPhone'') \<and>
               truthy (bodyField b ''roomNumber'') \<and> truthy (bodyField b ''days'') \<and>
               find (roomFilter (bodyField b ''roomNumber'')) (rooms s) = None
            then 404 else 400)"
  using assms by (auto simp: book_def book_try_def Let_def split: option.splits)

theorem book_unbookable_witness:
  "snd (book annStore 2 200 (bookBody (JStr (str ''Bob'')) (JStr (str ''5550102'')) (JStr (str ''101'')) (num 1))) = annStore \<and>
   status (fst (book annStore 2 200 (bookBody (JStr (str ''Bob'')) (JStr (str ''5550102'')) (JStr (str ''101'')) (num 1)))) = 400 \<and>
   snd (book seeded 2 200 (bookBody (JStr (str ''Bob'')) (JStr (str ''5550102'')) (JStr (str ''999'')) (num 1))) = seeded \<and>
   status (fst (book seeded 2 200 (bookBody (JStr (str ''Bob'')) (JStr (str ''5550102'')) (JStr (str ''999'')) (num 1)))) = 404"
  using book_unbookable [of "bookBody (JStr (str ''Bob'')) (JStr (str ''5550102'')) (JStr (str ''101'')) (num 1)" annStore 2 200]
    book_unbookable [of "bookBody (JStr (str ''Bob'')) (JStr (str ''5550102'')) (JStr (str ''999'')) (num 1)" seeded 2 200]
  by (simp add: bodyField_bookBody find_101_annStore find_999_seeded truthy_num str_empty_iff)

text \<open>
  An unknown room is not always answered with 404: the presence check comes first, so a
  request for room 999 that lacks guestName gets 400.
\<close>

theorem book_unknown_room_400:
  "find (roomFilter (bodyField [''guestPhone'' \<mapsto> JStr (str ''5550102''), ''roomNumber'' \<mapsto> JStr (str ''999''), ''days'' \<mapsto> num 1] ''roomNumber''))
      (rooms seeded) = None \<and>
   book seeded 2 200 [''guestPhone'' \<mapsto> JStr (str ''5550102''), ''roomNumber'' \<mapsto> JStr (str ''999''), ''days'' \<mapsto> num 1] =
     (Reply 400 ''All fields are required'' None, seeded)"
  by (simp add: book_def book_try_def bodyField_def find_999_seeded)

text \<open>
  C6 (as amended). A book request in which one of guestName, guestPhone, roomNumber, days
  is absent or falsy (null, false, the number 0, the empty string) is answered with status
  400 and the message "All fields are required", and the store is left as it was.
\<close>

theorem book_validation:
  assumes "\<not> truthy (bodyField b ''guestName'') \<or> \<not> truthy (bodyField b ''guestPhone'') \<or>
           \<not> truthy (bodyField b ''roomNumber'') \<or> \<not> truthy (bodyField b ''days'')"
  shows "book s oid now b = (Reply 400 ''All fields are required'' None, s)"
  using assms by (auto simp: book_def book_try_def Let_def)

theorem book_validation_witness:
  "\<not> truthy (bodyField (bookBody (JStr (str ''Ann'')) (JStr (str ''5550101'')) (JStr (str ''101'')) (num 0)) ''days'') \<and>
   book seeded 10 100 (bookBody (JStr (str ''Ann'')) (JStr (str ''5550101'')) (JStr (str ''101'')) (num 0)) =
     (Reply 400 ''All fields are required'' None, seeded)"
  using book_validation [of "bookBody (JStr (str ''Ann'')) (JStr (str ''5550101'')) (JStr (str ''101'')) (num 0)" seeded 10 100]
  by (simp add: bodyField_bookBody truthy_num)

text \<open>
  The presence check is the only check of \<open>days\<close>: a negative number passes it, and on
  the seeded store the request below books room 101 for -3 days at a total of -3000.
\<close>

theorem book_negative_days:
  "book seeded 10 100 (bookBody (JStr (str ''Ann'')) (JStr (str ''5550101'')) (JStr (str ''101'')) (num (- 3))) =
     (Reply 201 ''Booking Successful!''
        (Some \<lparr>b_id = 10, guestName = str ''Ann'', guestPhone = str ''5550101'', b_roomNumber = str ''101'',
               days = Num (- 3), totalAmount = Num (- 3000), createdAt = 100\<rparr>),
      \<lparr>rooms =
         [\<lparr>roomNumber = str ''101'', roomType = str ''Single'', price = 1000, available = False\<rparr>,
          \<lparr>roomNumber = str ''102'', roomType = str ''Double'', price = 1500, available = True\<rparr>,
          \<lparr>roomNumber = str ''103'', roomType = str ''Deluxe'', price = 2000, available = True\<rparr>],
       bookings =
         [\<lparr>b_id = 10, guestName = str ''Ann'', guestPhone = str ''5550101'', b_roomNumber = str ''101'',
            days = Num (- 3), totalAmount = Num (- 3000), createdAt = 100\<rparr>]\<rparr>)"
  by (simp add: book_def book_try_def bodyField_bookBody seeded_eq sampleRooms_def
      roomFilter_def str_eq_iff str_empty_iff truthy_num roundDouble_safe parseInt_num trim_Ann
      newBooking_def checkRequired_def)



subsection \<open>Cancelling a booking\<close>

text \<open>
  C4 (as amended). A cancel request whose id names an existing booking and whose roomNumber
  is present and equal to the roomNumber stored in that booking succeeds: the booking record
  is deleted (the listing loses exactly that record, and with unique ids it no longer
  appears in it) and the room the booking references is available again.
\<close>

theorem cancel_own_room:
  assumes id: "castObjectId (bodyField b ''id'') = Inr oid"
    and bk: "find (\<lambda>x. b_id x = oid) (bookings s) = Some bk"
    and rn: "truthy (bodyField b ''roomNumber'')"
      "castString (bodyField b ''roomNumber'') = Some (b_roomNumber bk)"
  shows "fst (cancel s b) = Reply 200 ''Booking Cancelled Successfully!'' None \<and>
         mset (getBookings (snd (cancel s b))) = mset (bookings s) - {#bk#} \<and>
         (distinct (map b_id (bookings s)) \<longrightarrow> bk \<notin> set (getBookings (snd (cancel s b)))) \<and>
         (\<forall>r. find (\<lambda>x. roomNumber x = b_roomNumber bk) (rooms s) = Some r \<longrightarrow>
              find (\<lambda>x. roomNumber x = b_roomNumber bk) (rooms (snd (cancel s b))) =
                Some (r\<lparr>available := True\<rparr>))"
proof -
  note eq = cancel_success [OF id bk rn(1)]
  note rf = roomFilter_eq [OF rn(2)]
  have 1: "fst (cancel s b) = Reply 200 ''Booking Cancelled Successfully!'' None"
    by (simp add: eq)
  have 2: "mset (getBookings (snd (cancel s b))) = mset (bookings s) - {#bk#}"
    by (simp add: eq mset_getBookings mset_deleteFirst [OF bk])
  have 3: "bk \<notin> set (getBookings (snd (cancel s b)))" if d: "distinct (map b_id (bookings s))"
  proof
    assume "bk \<in> set (getBookings (snd (cancel s b)))"
    then have "bk \<in> set (deleteFirst (\<lambda>x. b_id x = oid) (bookings s))"
      by (simp add: eq set_getBookings)
    from deleteFirst_key [OF d this] have "b_id bk \<noteq> oid" .
    with find_SomeD1 [OF bk] show False by simp
  qed
  have 4: "find (\<lambda>x. roomNumber x = b_roomNumber bk) (rooms (snd (cancel s b))) =
             Some (r\<lparr>available := True\<rparr>)"
    if "find (\<lambda>x. roomNumber x = b_roomNumber bk) (rooms s) = Some r" for r
    using that by (simp add: eq rf find_updateFirst)
  from 1 2 3 4 show ?thesis by blast
qed

theorem cancel_own_room_witness:
  "fst (cancel annStore (cancelBody annId (JStr (str ''101'')))) =
     Reply 200 ''Booking Cancelled Successfully!'' None \<and>
   mset (getBookings (snd (cancel annStore (cancelBody annId (JStr (str ''101'')))))) =
     mset (bookings annStore) - {#annBooking#} \<and>
   find (\<lambda>x. roomNumber x = str ''101'') (rooms (snd (cancel annStore (cancelBody annId (JStr (str ''101'')))))) =
     Some \<lparr>roomNumber = str ''101'', roomType = str ''Single'', price = 1000, available = True\<rparr>"
proof -
  let ?b = "cancelBody annId (JStr (str ''101''))"
  have id: "castObjectId (bodyField ?b ''id'') = Inr 10"
    by (simp add: bodyField_cancelBody castObjectId_annId)
  have rn: "truthy (bodyField ?b ''roomNumber'')"
    "castString (bodyField ?b ''roomNumber'') = Some (b_roomNumber annBooking)"
    by (simp_all add: bodyField_cancelBody annBooking_def str_empty_iff)
  have f: "find (\<lambda>x. roomNumber x = b_roomNumber annBooking) (rooms annStore) =
      Some \<lparr>roomNumber = str ''101'', roomType = str ''Single'', price = 1000, available = False\<rparr>"
    by (simp add: annStore_def annBooking_def str_eq_iff)
  have n: "b_roomNumber annBooking = str ''101''" by (simp add: annBooking_def)
  from cancel_own_room [OF id find_annBooking rn] f show ?thesis
    unfolding n by auto
qed

text \<open>
  The room that is freed is not taken from the booking: cancelling Ann's booking of room 101
  with roomNumber 102 in the body succeeds, deletes the booking and leaves room 101
  unavailable.
\<close>

theorem cancel_other_room:
  "castObjectId (bodyField (cancelBody annId (JStr (str ''102''))) ''id'') = Inr 10 \<and>
   find (\<lambda>x. b_id x = 10) (bookings annStore) = Some annBooking \<and>
   b_roomNumber annBooking = str ''101'' \<and>
   cancel annStore (cancelBody annId (JStr (str ''102''))) =
     (Reply 200 ''Booking Cancelled Successfully!'' None,
      \<lparr>rooms =
         [\<lparr>roomNumber = str ''101'', roomType = str ''Single'', price = 1000, available = False\<rparr>,
          \<lparr>roomNumber = str ''102'', roomType = str ''Double'', price = 1500, available = True\<rparr>,
          \<lparr>roomNumber = str ''103'', roomType = str ''Deluxe'', price = 2000, available = True\<rparr>],
       bookings = []\<rparr>)"
  by (simp add: cancel_def cancel_try_def bodyField_cancelBody castObjectId_annId truthy_annId
      annStore_def annBooking_def roomFilter_def str_eq_iff str_empty_iff)

text \<open>
  C5 (as amended). A cancel request whose id and roomNumber are present and whose id names
  no booking leaves the store as it was. When the id is a well-formed identifier (24
  hexadecimal digits) the reply is 404 "Booking not found"; when it is not, the cast of the
  query fails and the reply is 500.
\<close>

theorem cancel_unknown:
  assumes "truthy (bodyField b ''id'')" and "truthy (bodyField b ''roomNumber'')"
    and "case castObjectId (bodyField b ''id'') of
           Inl e \<Rightarrow> True | Inr oid \<Rightarrow> find (\<lambda>x. b_id x = oid) (bookings s) = None"
  shows "cancel s b =
           (case castObjectId (bodyField b ''id'') of
              Inl e \<Rightarrow> (Reply 500 ''Error cancelling booking'' None, s)
            | Inr oid \<Rightarrow> (Reply 404 ''Booking not found'' None, s))"
  using assms by (auto simp: cancel_def cancel_try_def Let_def split: sum.splits)

theorem cancel_unknown_witness:
  "cancel annStore (cancelBody (JStr (str ''000000000000000000000002'')) (JStr (str ''101''))) =
     (Reply 404 ''Booking not found'' None, annStore) \<and>
   cancel annStore (cancelBody (JNum (dec 2 23)) (JStr (str ''101''))) =
     (Reply 500 ''Error cancelling booking'' None, annStore)"
  using cancel_unknown [of "cancelBody (JStr (str ''000000000000000000000002'')) (JStr (str ''101''))" annStore]
    cancel_unknown [of "cancelBody (JNum (dec 2 23)) (JStr (str ''101''))" annStore]
  by (simp add: bodyField_cancelBody castObjectId_2 castObjectId_2e23 annStore_def annBooking_def
      str_empty_iff mantissa_dec)

text \<open>
  The id \<^verbatim>\<open>"abc"\<close> is present and names no booking, and the reply is 500, not 404.
\<close>

theorem cancel_malformed_id:
  "truthy (bodyField (cancelBody (JStr (str ''abc'')) (JStr (str ''101''))) ''id'') \<and>
   truthy (bodyField (cancelBody (JStr (str ''abc'')) (JStr (str ''101''))) ''roomNumber'') \<and>
   castObjectId (bodyField (cancelBody (JStr (str ''abc'')) (JStr (str ''101''))) ''id'') = Inl CastError \<and>
   cancel annStore (cancelBody (JStr (str ''abc'')) (JStr (str ''101''))) =
     (Reply 500 ''Error cancelling booking'' None, annStore)"
  by (simp add: cancel_def cancel_try_def bodyField_cancelBody castObjectId_abc str_empty_iff)

text \<open>
  C8 (as amended). For a cancel request whose id names an existing booking and whose
  roomNumber is present, the reply is the success confirmation, the booking is deleted, and
  the rooms change as the request's roomNumber says, whatever roomNumber the deleted booking
  stored: the first room matching the request's roomNumber becomes available, no other room
  changes, and when no room matches, no room is modified.
\<close>

theorem cancel_requested_room:
  assumes id: "castObjectId (bodyField b ''id'') = Inr oid"
    and bk: "find (\<lambda>x. b_id x = oid) (bookings s) = Some bk"
    and rn: "truthy (bodyField b ''roomNumber'')"
  shows "fst (cancel s b) = Reply 200 ''Booking Cancelled Successfully!'' None \<and>
         bookings (snd (cancel s b)) = deleteFirst (\<lambda>x. b_id x = oid) (bookings s) \<and>
         rooms (snd (cancel s b)) =
           updateFirst (roomFilter (bodyField b ''roomNumber'')) (\<lambda>x. x\<lparr>available := True\<rparr>) (rooms s) \<and>
         (\<forall>r. find (roomFilter (bodyField b ''roomNumber'')) (rooms s) = Some r \<longrightarrow>
              find (roomFilter (bodyField b ''roomNumber'')) (rooms (snd (cancel s b))) =
                Some (r\<lparr>available := True\<rparr>)) \<and>
         (\<forall>i<length (rooms s). rooms (snd (cancel s b)) ! i \<noteq> rooms s ! i \<longrightarrow>
              roomFilter (bodyField b ''roomNumber'') (rooms s ! i)) \<and>
         (find (roomFilter (bodyField b ''roomNumber'')) (rooms s) = None \<longrightarrow>
              rooms (snd (cancel s b)) = rooms s)"
proof -
  note eq = cancel_success [OF id bk rn]
  have 1: "find (roomFilter (bodyField b ''roomNumber'')) (rooms (snd (cancel s b))) =
             Some (r\<lparr>available := True\<rparr>)"
    if "find (roomFilter (bodyField b ''roomNumber'')) (rooms s) = Some r" for r
    using that by (simp add: eq) (subst find_updateFirst, simp_all add: roomFilter_def)
  have 2: "roomFilter (bodyField b ''roomNumber'') (rooms s ! i)"
    if "i < length (rooms s)" "rooms (snd (cancel s b)) ! i \<noteq> rooms s ! i" for i
    using that updateFirst_changed [of i "rooms s" "roomFilter (bodyField b ''roomNumber'')"]
    by (simp add: eq)
  have 3: "rooms (snd (cancel s b)) = rooms s"
    if "find (roomFilter (bodyField b ''roomNumber'')) (rooms s) = None"
    using that by (simp add: eq updateFirst_find_None)
  from 1 2 3 show ?thesis by (simp add: eq)
qed

theorem cancel_requested_room_witness:
  "fst (cancel annStore (cancelBody annId (JStr (str ''999'')))) =
     Reply 200 ''Booking Cancelled Successfully!'' None \<and>
   rooms (snd (cancel annStore (cancelBody annId (JStr (str ''999''))))) = rooms annStore \<and>
   bookings (snd (cancel annStore (cancelBody annId (JStr (str ''999''))))) = [] \<and>
   find (roomFilter (JStr (str ''103''))) (rooms (snd (cancel annStore (cancelBody annId (JStr (str ''103'')))))) =
     Some \<lparr>roomNumber = str ''103'', roomType = str ''Deluxe'', price = 2000, available = True\<rparr>"
proof -
  let ?b = "cancelBody annId (JStr (str ''999''))" and ?c = "cancelBody annId (JStr (str ''103''))"
  have id: "castObjectId (bodyField ?b ''id'') = Inr 10" "castObjectId (bodyField ?c ''id'') = Inr 10"
    by (simp_all add: bodyField_cancelBody castObjectId_annId)
  have rn: "truthy (bodyField ?b ''roomNumber'')" "truthy (bodyField ?c ''roomNumber'')"
    by (simp_all add: bodyField_cancelBody str_empty_iff)
  have f: "find (roomFilter (bodyField ?b ''roomNumber'')) (rooms annStore) = None"
    "find (roomFilter (bodyField ?c ''roomNumber'')) (rooms annStore) =
       Some \<lparr>roomNumber = str ''103'', roomType = str ''Deluxe'', price = 2000, available = True\<rparr>"
    by (simp_all add: bodyField_cancelBody annStore_def roomFilter_def str_eq_iff)
  have d: "deleteFirst (\<lambda>x. b_id x = 10) (bookings annStore) = []"
    by (simp add: annStore_def annBooking_def str_eq_iff)
  from cancel_requested_room [OF id(1) find_annBooking rn(1)]
    cancel_requested_room [OF id(2) find_annBooking rn(2)] f d
  show ?thesis by (auto simp: bodyField_cancelBody)
qed

text \<open>
  A roomNumber that is the empty string matches no room, but the request does not reach the
  deletion: the presence check answers 400 and the booking stays.
\<close>

theorem cancel_empty_room_number:
  "castObjectId (bodyField (cancelBody annId (JStr [])) ''id'') = Inr 10 \<and>
   find (\<lambda>x. b_id x = 10) (bookings annStore) = Some annBooking \<and>
   find (roomFilter (bodyField (cancelBody annId (JStr [])) ''roomNumber'')) (rooms annStore) = None \<and>
   cancel annStore (cancelBody annId (JStr [])) =
     (Reply 400 ''Booking ID and room number are required'' None, annStore)"
  by (simp add: cancel_def cancel_try_def bodyField_cancelBody castObjectId_annId annStore_def
      annBooking_def roomFilter_def str_empty_iff)

subsection \<open>What a request may change in a room\<close>

text \<open>
  C7. Neither handler changes the roomNumber, roomType or price of any room, and a room that
  a request changes at all is the first room matching the request's roomNumber: so at most
  one room changes, and only in its available flag.
\<close>

theorem rooms_frame:
  "(map roomNumber (rooms (snd (book s oid now b))) = map roomNumber (rooms s) \<and>
    map roomType (rooms (snd (book s oid now b))) = map roomType (rooms s) \<and>
    map price (rooms (snd (book s oid now b))) = map price (rooms s) \<and>
    (\<forall>i<length (rooms s). rooms (snd (book s oid now b)) ! i \<noteq> rooms s ! i \<longrightarrow>
       roomFilter (bodyField b ''roomNumber'') (rooms s ! i) \<and>
       (\<forall>k<i. \<not> roomFilter (bodyField b ''roomNumber'') (rooms s ! k)))) \<and>
   (map roomNumber (rooms (snd (cancel s c))) = map roomNumber (rooms s) \<and>
    map roomType (rooms (snd (cancel s c))) = map roomType (rooms s) \<and>
    map price (rooms (snd (cancel s c))) = map price (rooms s) \<and>
    (\<forall>i<length (rooms s). rooms (snd (cancel s c)) ! i \<noteq> rooms s ! i \<longrightarrow>
       roomFilter (bodyField c ''roomNumber'') (rooms s ! i) \<and>
       (\<forall>k<i. \<not> roomFilter (bodyField c ''roomNumber'') (rooms s ! k))))"
  using frame_updateFirst [OF rooms_after_book [of s oid now b]]
    frame_updateFirst [OF rooms_after_cancel [of s c]]
  by blast

theorem rooms_frame_witness:
  "rooms (snd (book seeded 10 100 annBody)) ! 0 \<noteq> rooms seeded ! 0 \<and>
   roomFilter (bodyField annBody ''roomNumber'') (rooms seeded ! 0) \<and>
   rooms (snd (cancel annStore (cancelBody annId (JStr (str ''101''))))) ! 0 \<noteq> rooms annStore ! 0 \<and>
   roomFilter (bodyField (cancelBody annId (JStr (str ''101''))) ''roomNumber'') (rooms annStore ! 0)"
proof -
  have l1: "0 < length (rooms seeded)" and l2: "0 < length (rooms annStore)"
    by (simp_all add: seeded_eq sampleRooms_def annStore_def)
  have c1: "rooms (snd (book seeded 10 100 annBody)) ! 0 \<noteq> rooms seeded ! 0"
    unfolding book_ann snd_conv by (simp add: seeded_eq sampleRooms_def annStore_def)
  have c2: "rooms (snd (cancel annStore (cancelBody annId (JStr (str ''101''))))) ! 0 \<noteq> rooms annStore ! 0"
    unfolding cancel_ann_101 snd_conv by (simp add: seeded_eq sampleRooms_def annStore_def)
  note f1 = rooms_frame [of seeded 10 100 annBody, THEN conjunct1, THEN conjunct2, THEN conjunct2,
      THEN conjunct2, rule_format, OF l1 c1]
  note f2 = rooms_frame [where s = annStore and c = "cancelBody annId (JStr (str ''101''))",
      THEN conjunct2, THEN conjunct2, THEN conjunct2, THEN conjunct2, rule_format, OF l2 c2]
  from c1 c2 f1 f2 show ?thesis by blast
qed

subsection \<open>The occupancy invariant\<close>

lemma exclusive_seeded: "exclusive seeded"
  by (simp add: exclusive_def seeded_eq sampleRooms_def refs_def str_eq_iff)

lemma exclusive_occupancy: "exclusive s \<Longrightarrow> occupancy s"
  by (auto simp: exclusive_def occupancy_def list_all_iff)

lemma exclusive_book:
  assumes ex: "exclusive s"
  shows "exclusive (snd (book s oid now b))"
proof (cases "status (fst (book s oid now b)) = 201")
  case False
  with ex show ?thesis by (simp add: book_failed)
next
  case True
  from book_created [OF True] obtain gn gp r where
    r: "find (roomFilter (bodyField b ''roomNumber'')) (rooms s) = Some r" and av: "available r"
    and eq: "book s oid now b =
             (Reply 201 ''Booking Successful!''
                (Some \<lparr>b_id = oid, guestName = trim gn, guestPhone = trim gp,
                       b_roomNumber = roomNumber r, days = parseInt (bodyField b ''days''),
                     totalAmount = mulNum (price r) (parseInt (bodyField b ''days'')),
                       createdAt = now\<rparr>),
              s\<lparr>bookings := bookings s @
                   [\<lparr>b_id = oid, guestName = trim gn, guestPhone = trim gp,
                     b_roomNumber = roomNumber r, days = parseInt (bodyField b ''days''),
                     totalAmount = mulNum (price r) (parseInt (bodyField b ''days'')),
                     createdAt = now\<rparr>],
                rooms := updateFirst (roomFilter (bodyField b ''roomNumber''))
                           (\<lambda>x. x\<lparr>available := False\<rparr>) (rooms s)\<rparr>)"
    by blast
  let ?k = "roomNumber r"
  let ?g = "\<lambda>x. if roomNumber x = ?k then x\<lparr>available := False\<rparr> else x"
  from ex have d: "distinct (map roomNumber (rooms s))"
    and c: "\<forall>x\<in>set (rooms s). refs s x = (if available x then 0 else 1)"
    by (auto simp: exclusive_def list_all_iff)
  from find_SomeD1 [OF r] have rin: "r \<in> set (rooms s)"
    and cs: "castString (bodyField b ''roomNumber'') = Some ?k"
    by (auto simp: roomFilter_def)
  have rooms': "rooms (snd (book s oid now b)) = map ?g (rooms s)"
    by (simp add: eq roomFilter_eq [OF cs] updateFirst_distinct [OF d])
  have bookings': "bookings (snd (book s oid now b)) = bookings s @
        [\<lparr>b_id = oid, guestName = trim gn, guestPhone = trim gp,
          b_roomNumber = roomNumber r, days = parseInt (bodyField b ''days''),
                     totalAmount = mulNum (price r) (parseInt (bodyField b ''days'')), createdAt = now\<rparr>]"
    by (simp add: eq)
  have d': "distinct (map roomNumber (rooms (snd (book s oid now b))))"
  proof -
    have e: "map roomNumber (map ?g (rooms s)) = map roomNumber (rooms s)" by (simp add: comp_def)
    show ?thesis unfolding rooms' e by (rule d)
  qed
  have c': "refs (snd (book s oid now b)) (?g x) = (if available (?g x) then 0 else 1)"
    if x: "x \<in> set (rooms s)" for x
  proof (cases "roomNumber x = ?k")
    case True
    with d x rin have "x = r" by (meson distinct_map inj_onD)
    moreover from c rin av have "refs s r = 0" by simp
    ultimately show ?thesis by (simp add: refs_def bookings')
  next
    case False
    with c x show ?thesis by (auto simp: refs_def bookings')
  qed
  have all: "\<forall>y\<in>set (rooms (snd (book s oid now b))).
      refs (snd (book s oid now b)) y = (if available y then 0 else 1)"
  proof
    fix y
    assume "y \<in> set (rooms (snd (book s oid now b)))"
    then have "y \<in> ?g ` set (rooms s)" unfolding rooms' by (simp only: set_map)
    then obtain x where x: "x \<in> set (rooms s)" and y: "y = ?g x" by blast
    show "refs (snd (book s oid now b)) y = (if available y then 0 else 1)"
      unfolding y by (rule c' [OF x])
  qed
  from d' all show ?thesis unfolding exclusive_def list_all_iff by blast
qed

lemma exclusive_cancel:
  assumes ex: "exclusive s" and m: "matched s (CancelReq b)"
  shows "exclusive (snd (cancel s b))"
proof -
  from cancel_cases [of s b] show ?thesis
  proof
    assume "snd (cancel s b) = s"
    with ex show ?thesis by simp
  next
    assume "\<exists>oid bk. castObjectId (bodyField b ''id'') = Inr oid \<and>
      find (\<lambda>x. b_id x = oid) (bookings s) = Some bk \<and> truthy (bodyField b ''roomNumber'')"
    then obtain oid bk where id: "castObjectId (bodyField b ''id'') = Inr oid"
      and bk: "find (\<lambda>x. b_id x = oid) (bookings s) = Some bk"
      and rn: "truthy (bodyField b ''roomNumber'')"
      by blast
    note eq = cancel_success [OF id bk rn]
    let ?k = "b_roomNumber bk"
    let ?g = "\<lambda>x. if roomNumber x = ?k then x\<lparr>available := True\<rparr> else x"
    from m id bk have cs: "castString (bodyField b ''roomNumber'') = Some ?k" by simp
    from ex have d: "distinct (map roomNumber (rooms s))"
      and c: "\<forall>x\<in>set (rooms s). refs s x = (if available x then 0 else 1)"
      by (auto simp: exclusive_def list_all_iff)
    have rooms': "rooms (snd (cancel s b)) = map ?g (rooms s)"
      by (simp add: eq roomFilter_eq [OF cs] updateFirst_distinct [OF d])
    have bookings': "bookings (snd (cancel s b)) = deleteFirst (\<lambda>x. b_id x = oid) (bookings s)"
      by (simp add: eq)
    have d': "distinct (map roomNumber (rooms (snd (cancel s b))))"
    proof -
      have e: "map roomNumber (map ?g (rooms s)) = map roomNumber (rooms s)" by (simp add: comp_def)
      show ?thesis unfolding rooms' e by (rule d)
    qed
    have c': "refs (snd (cancel s b)) (?g x) = (if available (?g x) then 0 else 1)"
      if x: "x \<in> set (rooms s)" for x
    proof (cases "roomNumber x = ?k")
      case True
      from find_SomeD1 [OF bk] have "bk \<in> set (bookings s)" by simp
      with True have "0 < refs s x" unfolding refs_def by (intro filter_pos) auto
      with c x have "refs s x = 1" by (auto split: if_splits)
      with True show ?thesis
        by (simp add: refs_def bookings' filter_deleteFirst [OF bk])
    next
      case False
      with c x show ?thesis
        by (auto simp: refs_def bookings' filter_deleteFirst [OF bk])
    qed
    have all: "\<forall>y\<in>set (rooms (snd (cancel s b))).
        refs (snd (cancel s b)) y = (if available y then 0 else 1)"
    proof
      fix y
      assume "y \<in> set (rooms (snd (cancel s b)))"
      then have "y \<in> ?g ` set (rooms s)" unfolding rooms' by (simp only: set_map)
      then obtain x where x: "x \<in> set (rooms s)" and y: "y = ?g x" by blast
      show "refs (snd (cancel s b)) y = (if available y then 0 else 1)"
        unfolding y by (rule c' [OF x])
    qed
    from d' all show ?thesis unfolding exclusive_def list_all_iff by blast
  qed
qed

lemma exclusive_run: "exclusive s \<Longrightarrow> allMatched s qs \<Longrightarrow> exclusive (run s qs)"
proof (induction qs arbitrary: s)
  case Nil
  then show ?case by (simp add: run_def)
next
  case (Cons q qs)
  from Cons.prems have m: "matched s q" and rest: "allMatched (handle s q) qs" by simp_all
  have "exclusive (handle s q)"
  proof (cases q)
    case (BookReq oid now b)
    with Cons.prems(1) show ?thesis by (simp add: exclusive_book)
  next
    case (CancelReq b)
    with Cons.prems(1) m show ?thesis by (simp add: exclusive_cancel)
  qed
  from Cons.IH [OF this rest] show ?case by (simp add: run_def)
qed

text \<open>
  C1 (as amended). In every state reached from the seeded store by book requests with any
  body and by matched cancel requests (the roomNumber sent is the one stored in the booking
  that the id names), every room is unavailable if and only if exactly one booking record
  references its roomNumber.
\<close>

theorem occupancy_reachable:
  assumes "allMatched seeded qs"
  shows "occupancy (run seeded qs)"
  using exclusive_occupancy [OF exclusive_run [OF exclusive_seeded assms]] .

theorem occupancy_reachable_witness:
  "allMatched seeded [BookReq 10 100 annBody, CancelReq (cancelBody annId (JStr (str ''101'')))] \<and>
   occupancy (run seeded [BookReq 10 100 annBody, CancelReq (cancelBody annId (JStr (str ''101'')))])"
proof -
  have m: "matched annStore (CancelReq (cancelBody annId (JStr (str ''101''))))"
    by (simp add: bodyField_cancelBody castObjectId_annId find_annBooking) (simp add: annBooking_def)
  have a: "allMatched seeded [BookReq 10 100 annBody, CancelReq (cancelBody annId (JStr (str ''101'')))]"
    unfolding allMatched.simps handle_book_ann using m by simp
  from a occupancy_reachable [OF a] show ?thesis ..
qed

text \<open>
  Without the restriction the invariant fails: after Ann's booking of room 101, a cancel
  request with her booking's id and roomNumber 999 deletes the booking and frees no room, so
  room 101 is unavailable with no booking referencing it.
\<close>

theorem occupancy_broken:
  "occupancy (run seeded [BookReq 10 100 annBody]) \<and>
   \<not> occupancy (run seeded [BookReq 10 100 annBody, CancelReq (cancelBody annId (JStr (str ''999'')))])"
  unfolding run_def foldl.simps handle.simps book_ann snd_conv cancel_ann_999
  by (simp add: occupancy_def refs_def annStore_def annBooking_def str_eq_iff)

end
